theory Spec2Isabelle
  imports Complex_Main
begin

section \<open>Errors, indexing and tensors\<close>

text \<open>
  The exceptions the modelled Python can raise. Arithmetic is over the reals (the
  properties below are stated for exact arithmetic).
\<close>

datatype error = IndexError | TypeError | AttributeError | NotImplementedError
  | NameError | RuntimeError

text \<open>
  Indexing a one-dimensional table with an integer: a negative index counts from the
  end, anything outside \<open>[-n, n)\<close> raises IndexError.
\<close>

definition index :: "'a list \<Rightarrow> int \<Rightarrow> error + 'a" where
  "index xs i =
     (if 0 \<le> i \<and> i < int (length xs) then Inr (xs ! nat i)
      else if - int (length xs) \<le> i \<and> i < 0 then Inr (xs ! nat (int (length xs) + i))
      else Inl IndexError)"

text \<open>\<open>table[t]\<close> for an integer vector \<open>t\<close>: one lookup per batch element.\<close>

fun gather :: "'a list \<Rightarrow> int list \<Rightarrow> error + 'a list" where
  "gather xs [] = Inr []"
| "gather xs (i # is) =
     (case index xs i of
        Inl e \<Rightarrow> Inl e
      | Inr v \<Rightarrow> (case gather xs is of Inl e \<Rightarrow> Inl e | Inr vs \<Rightarrow> Inr (v # vs)))"

text \<open>
  A tensor of shape (B, 1, T, F) is a batch of B samples, each sample the list of its
  T * F entries. Elementwise operations are between operands of the same shape, as at
  every call site of the source (\<open>torch.randn_like\<close>, predictions of the shape of the
  state); a coefficient is either one scalar for the whole tensor or one per batch
  element (\<open>coef[:, None, None, None]\<close>).
\<close>

type_synonym tensor = "real list list"

definition shape :: "tensor \<Rightarrow> nat list" where
  "shape x = map length x"

definition tadd :: "tensor \<Rightarrow> tensor \<Rightarrow> tensor" where
  "tadd x y = map2 (map2 (+)) x y"

definition tsub :: "tensor \<Rightarrow> tensor \<Rightarrow> tensor" where
  "tsub x y = map2 (map2 (-)) x y"

definition smul :: "real \<Rightarrow> tensor \<Rightarrow> tensor" where
  "smul c x = map (map ((*) c)) x"

definition sdiv :: "tensor \<Rightarrow> real \<Rightarrow> tensor" where
  "sdiv x c = map (map (\<lambda>v. v / c)) x"

definition bmul :: "real list \<Rightarrow> tensor \<Rightarrow> tensor" where
  "bmul cs x = map2 (\<lambda>c s. map ((*) c) s) cs x"

definition bdiv :: "tensor \<Rightarrow> real list \<Rightarrow> tensor" where
  "bdiv x cs = map2 (\<lambda>s c. map (\<lambda>v. v / c) s) x cs"

definition zeros_like :: "tensor \<Rightarrow> tensor" where
  "zeros_like x = map (map (\<lambda>_. 0)) x"

section \<open>Forward process\<close>

text \<open>
  \<open>q_sample(x_start, t, sqrt_alphas_cumprod, sqrt_one_minus_alphas_cumprod, noise=None)\<close>:
  both tables are read at \<open>t\<close>, then
  \<open>sqrt_alphas_cumprod_t * x_start + sqrt_one_minus_alphas_cumprod_t * noise\<close> is
  returned. The default \<open>noise=None\<close> reaches the product unchanged, where a tensor times
  \<open>None\<close> raises TypeError.
\<close>

definition q_sample ::
  "tensor \<Rightarrow> int list \<Rightarrow> real list \<Rightarrow> real list \<Rightarrow> tensor option \<Rightarrow> error + tensor" where
  "q_sample x_start t sqrt_alphas_cumprod sqrt_one_minus_alphas_cumprod noise =
     (case gather sqrt_alphas_cumprod t of
        Inl e \<Rightarrow> Inl e
      | Inr sqrt_alphas_cumprod_t \<Rightarrow>
          (case gather sqrt_one_minus_alphas_cumprod t of
             Inl e \<Rightarrow> Inl e
           | Inr sqrt_one_minus_alphas_cumprod_t \<Rightarrow>
               (case noise of
                  None \<Rightarrow> Inl TypeError
                | Some n \<Rightarrow>
                    Inr (tadd (bmul sqrt_alphas_cumprod_t x_start)
                              (bmul sqrt_one_minus_alphas_cumprod_t n)))))"

text \<open>
  \<open>extract_x0(x_t, epsilon, t, sqrt_alphas_cumprod, sqrt_one_minus_alphas_cumprod)\<close>:
  \<open>(x_t - sqrt_one_minus_alphas_cumprod_t * epsilon) / sqrt_alphas_cumprod_t\<close>.
\<close>

definition extract_x0 ::
  "tensor \<Rightarrow> tensor \<Rightarrow> int list \<Rightarrow> real list \<Rightarrow> real list \<Rightarrow> error + tensor" where
  "extract_x0 x_t epsilon t sqrt_alphas_cumprod sqrt_one_minus_alphas_cumprod =
     (case gather sqrt_alphas_cumprod t of
        Inl e \<Rightarrow> Inl e
      | Inr sqrt_alphas_cumprod_t \<Rightarrow>
          (case gather sqrt_one_minus_alphas_cumprod t of
             Inl e \<Rightarrow> Inl e
           | Inr sqrt_one_minus_alphas_cumprod_t \<Rightarrow>
               Inr (bdiv (tsub x_t (bmul sqrt_one_minus_alphas_cumprod_t epsilon))
                         sqrt_alphas_cumprod_t)))"

section \<open>Noise schedule\<close>

text \<open>
  \<open>torch.linspace(start, end, steps)\<close>: \<open>steps\<close> points from \<open>start\<close> to \<open>end\<close>
  inclusive (the single point \<open>start\<close> when \<open>steps = 1\<close>). A timestep count is a
  natural number.
\<close>

definition linspace :: "real \<Rightarrow> real \<Rightarrow> nat \<Rightarrow> real list" where
  "linspace start stop steps =
     map (\<lambda>i. start + real i * ((stop - start) / real (steps - 1))) [0..<steps]"

definition clip :: "real \<Rightarrow> real \<Rightarrow> real \<Rightarrow> real" where
  "clip v lo hi = min (max v lo) hi"

text \<open>
  \<open>cosine_beta_schedule(timesteps, s=0.008)\<close>. \<open>cosine_alphas_cumprod\<close> is the value of
  the local \<open>alphas_cumprod\<close> before it is divided by its first entry.
\<close>

definition cosine_alphas_cumprod :: "nat \<Rightarrow> real \<Rightarrow> real list" where
  "cosine_alphas_cumprod timesteps s =
     map (\<lambda>x. (cos (((x / real timesteps) + s) / (1 + s) * pi * 0.5))\<^sup>2)
         (linspace 0 (real timesteps) (timesteps + 1))"

definition cosine_beta_schedule_s :: "nat \<Rightarrow> real \<Rightarrow> real list" where
  "cosine_beta_schedule_s timesteps s =
     (let alphas_cumprod = cosine_alphas_cumprod timesteps s;
          alphas_cumprod = map (\<lambda>a. a / (alphas_cumprod ! 0)) alphas_cumprod;
          betas = map (\<lambda>q. 1 - q) (map2 (/) (tl alphas_cumprod) (butlast alphas_cumprod))
      in map (\<lambda>b. clip b 0.0001 0.9999) betas)"

definition cosine_beta_schedule :: "nat \<Rightarrow> real list" where
  "cosine_beta_schedule timesteps = cosine_beta_schedule_s timesteps 0.008"

text \<open>\<open>torch.cumprod\<close> along the only axis.\<close>

fun cumprod_from :: "real \<Rightarrow> real list \<Rightarrow> real list" where
  "cumprod_from acc [] = []"
| "cumprod_from acc (x # xs) = (acc * x) # cumprod_from (acc * x) xs"

definition cumprod :: "real list \<Rightarrow> real list" where
  "cumprod xs = cumprod_from 1 xs"

text \<open>
  The tables that \<open>SpecRollDiffusion.__init__\<close> and \<open>LatentRollDiffusion.__init__\<close>
  compute from \<open>cosine_beta_schedule(timesteps)\<close> (the two constructors compute them
  alike). \<open>alphas_cumprod_prev\<close> is \<open>alphas_cumprod[:-1]\<close> padded on the left with 1.
\<close>

record schedule =
  betas :: "real list"
  alphas :: "real list"
  sqrt_recip_alphas :: "real list"
  sqrt_alphas_cumprod :: "real list"
  sqrt_one_minus_alphas_cumprod :: "real list"
  posterior_variance :: "real list"

definition alphas_of :: "real list \<Rightarrow> real list" where
  "alphas_of bs = map (\<lambda>b. 1 - b) bs"

definition build_schedule :: "nat \<Rightarrow> schedule" where
  "build_schedule timesteps =
     (let bs = cosine_beta_schedule timesteps;
          al = alphas_of bs;
          alphas_cumprod = cumprod al;
          alphas_cumprod_prev = 1 # butlast alphas_cumprod
      in \<lparr> betas = bs,
           alphas = al,
           sqrt_recip_alphas = map (\<lambda>a. sqrt (1 / a)) al,
           sqrt_alphas_cumprod = map sqrt alphas_cumprod,
           sqrt_one_minus_alphas_cumprod = map (\<lambda>a. sqrt (1 - a)) alphas_cumprod,
           posterior_variance =
             map2 (/) (map2 (*) bs (map (\<lambda>a. 1 - a) alphas_cumprod_prev))
                      (map (\<lambda>a. 1 - a) alphas_cumprod) \<rparr>)"

section \<open>Note extraction\<close>

text \<open>
  \<open>extract_notes_wo_velocity(onsets, frames, onset_threshold, frame_threshold, rule)\<close>.
  A grid of shape [frames, bins] is the list of its rows.
  \<open>binarize g thr\<close> is \<open>(g > thr).astype(int)\<close>.
\<close>

definition binarize :: "real list list \<Rightarrow> real \<Rightarrow> int list list" where
  "binarize g thr = map (map (\<lambda>v. if v > thr then 1 else 0)) g"

text \<open>
  \<open>np.concatenate([onsets[:1, :], onsets[1:, :] - onsets[:-1, :]], axis=0) == 1\<close>.
\<close>

definition onset_diff_of :: "int list list \<Rightarrow> bool list list" where
  "onset_diff_of onsets =
     map (map (\<lambda>d. d = 1))
       (take 1 onsets @ map2 (map2 (-)) (drop 1 onsets) (butlast onsets))"

text \<open>
  \<open>rule2\<close> keeps the onset mask, \<open>rule1\<close> takes \<open>onset_diff & (frames == 1)\<close>, any other
  name raises NameError.
\<close>

definition apply_rule ::
  "string \<Rightarrow> bool list list \<Rightarrow> int list list \<Rightarrow> error + bool list list" where
  "apply_rule rule onset_diff frames =
     (if rule = ''rule2'' then Inr onset_diff
      else if rule = ''rule1'' then
        Inr (map2 (map2 (\<and>)) onset_diff (map (map (\<lambda>f. f = 1)) frames))
      else Inl NameError)"

text \<open>\<open>np.nonzero\<close> of a two-dimensional mask: the positions of its true entries, row by row.\<close>

definition nonzero :: "bool list list \<Rightarrow> (nat \<times> nat) list" where
  "nonzero g =
     concat (map (\<lambda>(f, row). map (\<lambda>p. (f, p)) (filter (\<lambda>p. row ! p) [0..<length row]))
                 (enumerate 0 g))"

text \<open>\<open>g[i, j]\<close>.\<close>

definition at2 :: "'a list list \<Rightarrow> int \<Rightarrow> int \<Rightarrow> error + 'a" where
  "at2 g i j = (case index g i of Inl e \<Rightarrow> Inl e | Inr row \<Rightarrow> index row j)"

text \<open>
  The inner loop
  \<open>while onsets[offset, pitch] or frames[offset, pitch]: offset += 1; if offset == onsets.shape[0]: break\<close>,
  from a given \<open>offset\<close>; the result is the value of \<open>offset\<close> after the loop.
\<close>

function note_end :: "int list list \<Rightarrow> int list list \<Rightarrow> nat \<Rightarrow> nat \<Rightarrow> error + nat" where
  "note_end onsets frames pitch offset =
     (case at2 onsets (int offset) (int pitch) of
        Inl e \<Rightarrow> Inl e
      | Inr on \<Rightarrow>
          (case (if on \<noteq> 0 then Inr True
                 else (case at2 frames (int offset) (int pitch) of
                         Inl e \<Rightarrow> Inl e
                       | Inr fr \<Rightarrow> Inr (fr \<noteq> 0))) of
             Inl e \<Rightarrow> Inl e
           | Inr active \<Rightarrow>
               if active then
                 (if offset + 1 = length onsets then Inr (offset + 1)
                  else note_end onsets frames pitch (offset + 1))
               else Inr offset))"
  by pat_completeness auto
termination
proof (relation "measure (\<lambda>(onsets, frames, pitch, offset). length onsets - offset)")
  show "wf (measure (\<lambda>(onsets, frames, pitch, offset). length onsets - offset))" by simp
next
  fix onsets frames :: "int list list" and pitch offset :: nat and on :: int
  assume "at2 onsets (int offset) (int pitch) = Inr on"
  then have "offset < length onsets"
    by (auto simp: at2_def index_def split: if_splits sum.splits)
  then show "((onsets, frames, pitch, offset + 1), (onsets, frames, pitch, offset))
      \<in> measure (\<lambda>(onsets, frames, pitch, offset). length onsets - offset)"
    by simp
qed

declare note_end.simps [simp del]

text \<open>
  The loop over the positions of the mask: a note is appended when its end lies after
  its onset.
\<close>

fun collect_notes ::
  "int list list \<Rightarrow> int list list \<Rightarrow> (nat \<times> nat) list \<Rightarrow> nat list \<times> (nat \<times> nat) list
     \<Rightarrow> error + (nat list \<times> (nat \<times> nat) list)" where
  "collect_notes onsets frames [] acc = Inr acc"
| "collect_notes onsets frames ((onset, pitch) # rest) (pitches, intervals) =
     (case note_end onsets frames pitch onset of
        Inl e \<Rightarrow> Inl e
      | Inr offset \<Rightarrow>
          collect_notes onsets frames rest
            (if offset > onset then (pitches @ [pitch], intervals @ [(onset, offset)])
             else (pitches, intervals)))"

definition extract_notes_wo_velocity ::
  "real list list \<Rightarrow> real list list \<Rightarrow> real \<Rightarrow> real \<Rightarrow> string
     \<Rightarrow> error + (nat list \<times> (nat \<times> nat) list)" where
  "extract_notes_wo_velocity onsets frames onset_threshold frame_threshold rule =
     (let onsets' = binarize onsets onset_threshold;
          frames' = binarize frames frame_threshold;
          onset_diff = onset_diff_of onsets'
      in case apply_rule rule onset_diff frames' of
           Inl e \<Rightarrow> Inl e
         | Inr onset_diff' \<Rightarrow>
             collect_notes onsets' frames' (nonzero onset_diff') ([], []))"

text \<open>A grid of shape [n, bins]: \<open>n\<close> rows of \<open>bins\<close> entries each.\<close>

definition rect :: "nat \<Rightarrow> nat \<Rightarrow> 'a list list \<Rightarrow> bool" where
  "rect n bins g \<longleftrightarrow> length g = n \<and> (\<forall>row \<in> set g. length row = bins)"

section \<open>Diffusion modules\<close>

text \<open>
  The denoising network is the module's \<open>forward\<close>, defined outside the modelled file:
  it takes the noisy state, the condition, the timestep vector and the keyword
  arguments of the call, and returns a prediction and a side channel. The three forms
  of call in the source are a plain call, \<open>sampling=True\<close>, and
  \<open>inpainting_t=..., inpainting_f=...\<close>.
\<close>

datatype kwargs = Plain | Sampling | Inpainting real real

type_synonym 's network = "tensor \<Rightarrow> tensor \<Rightarrow> int list \<Rightarrow> kwargs \<Rightarrow> tensor \<times> 's"

datatype variant = Ddpm | Ddpm_x0 | Ddim_x0 | Ddim | Ddim2ddpm | Cfdg_ddpm_x0
  | Generation_ddpm_x0 | Inpainting_ddpm_x0 | Cfdg_ddim_x0

text \<open>
  What \<open>getattr(self, sampling.type)\<close> can find: one of the nine reverse-step methods,
  or some other attribute of the module under that name.
\<close>

datatype attr = Strategy variant | Other string

record hyperparameters =
  timesteps :: int
  loss_type :: string
  sampling_type :: string
  sampling_w :: real
  inpainting_t :: real
  inpainting_f :: real
  debug :: bool

record 's module = schedule +
  hparams :: hyperparameters
  forward :: "'s network"
  reverse_diffusion :: attr

definition and_then :: "error + 'a \<Rightarrow> ('a \<Rightarrow> error + 'b) \<Rightarrow> error + 'b" where
  "and_then m f = (case m of Inl e \<Rightarrow> Inl e | Inr v \<Rightarrow> f v)"

section \<open>Reverse-step strategies\<close>

text \<open>
  Every strategy is a method \<open>(self, x, waveform, t_index)\<close> returning the next state and
  the side channel, or raising. \<open>torch.randn_like\<close> draws from a generator state, passed
  in as \<open>rng\<close> and returned updated; \<open>randn_like\<close> is the draw. The methods of
  \<open>SpecRollDiffusion\<close> and \<open>LatentRollDiffusion\<close> of the same name have the same body up
  to the names of the condition and of the side channel.
\<close>

type_synonym ('s, 'w) outcome = "error + ((tensor \<times> 's) \<times> 'w)"

text \<open>What the caller of a strategy sees: the returned pair, or the exception.\<close>

definition returned :: "('s, 'w) outcome \<Rightarrow> error + (tensor \<times> 's)" where
  "returned r = map_sum id fst r"

definition ddpm ::
  "(tensor \<Rightarrow> 'w \<Rightarrow> tensor \<times> 'w) \<Rightarrow> 's module \<Rightarrow> tensor \<Rightarrow> tensor \<Rightarrow> int \<Rightarrow> 'w
     \<Rightarrow> ('s, 'w) outcome" where
  "ddpm randn_like self x waveform t_index rng =
     and_then (index (betas self) t_index) (\<lambda>betas_t.
     and_then (index (sqrt_one_minus_alphas_cumprod self) t_index) (\<lambda>sqrt_one_minus_alphas_cumprod_t.
     and_then (index (sqrt_recip_alphas self) t_index) (\<lambda>sqrt_recip_alphas_t.
       let t_tensor = replicate (length x) t_index;
           (epsilon, spec) = forward self x waveform t_tensor Plain;
           model_mean = smul sqrt_recip_alphas_t
             (tsub x (sdiv (smul betas_t epsilon) sqrt_one_minus_alphas_cumprod_t))
       in if t_index = 0 then Inr ((model_mean, spec), rng)
          else and_then (index (posterior_variance self) t_index) (\<lambda>posterior_variance_t.
                 let (noise, rng') = randn_like x rng
                 in Inr ((tadd model_mean (smul (sqrt posterior_variance_t) noise), spec),
                         rng')))))"

definition ddpm_x0 ::
  "(tensor \<Rightarrow> 'w \<Rightarrow> tensor \<times> 'w) \<Rightarrow> 's module \<Rightarrow> tensor \<Rightarrow> tensor \<Rightarrow> int \<Rightarrow> 'w
     \<Rightarrow> ('s, 'w) outcome" where
  "ddpm_x0 randn_like self x waveform t_index rng =
     (let t_tensor = replicate (length x) t_index;
          (x0_pred, spec) = forward self x waveform t_tensor Plain
      in if t_index = 0 then
           and_then (index (sqrt_one_minus_alphas_cumprod self) t_index) (\<lambda>somac_t.
           and_then (index (alphas self) t_index) (\<lambda>alphas_t.
           and_then (index (sqrt_alphas_cumprod self) t_index) (\<lambda>sac_t.
             let sigma = (1 / somac_t) * sqrt (1 - alphas_t);
                 model_mean = sdiv x0_pred sac_t
             in Inr ((model_mean, spec), rng))))
         else
           and_then (index (sqrt_one_minus_alphas_cumprod self) (t_index - 1)) (\<lambda>somac_prev.
           and_then (index (sqrt_one_minus_alphas_cumprod self) t_index) (\<lambda>somac_t.
           and_then (index (alphas self) t_index) (\<lambda>alphas_t.
           and_then (index (sqrt_alphas_cumprod self) (t_index - 1)) (\<lambda>sac_prev.
           and_then (index (sqrt_alphas_cumprod self) t_index) (\<lambda>sac_t.
             let sigma = (somac_prev / somac_t) * sqrt (1 - alphas_t);
                 (noise, rng') = randn_like x rng;
                 model_mean =
                   tadd (tadd (smul sac_prev x0_pred)
                              (sdiv (smul (sqrt (1 - sac_prev\<^sup>2 - sigma\<^sup>2))
                                          (tsub x (smul sac_t x0_pred))) somac_t))
                        (smul sigma noise)
             in Inr ((model_mean, spec), rng')))))))"

definition ddim_x0 ::
  "(tensor \<Rightarrow> 'w \<Rightarrow> tensor \<times> 'w) \<Rightarrow> 's module \<Rightarrow> tensor \<Rightarrow> tensor \<Rightarrow> int \<Rightarrow> 'w
     \<Rightarrow> ('s, 'w) outcome" where
  "ddim_x0 randn_like self x waveform t_index rng =
     (let t_tensor = replicate (length x) t_index;
          (x0_pred, spec) = forward self x waveform t_tensor Plain
      in if t_index = 0 then
           and_then (index (sqrt_alphas_cumprod self) t_index) (\<lambda>sac_t.
             let sigma = (0::real);
                 model_mean = sdiv x0_pred sac_t
             in Inr ((model_mean, spec), rng))
         else
           and_then (index (sqrt_alphas_cumprod self) (t_index - 1)) (\<lambda>sac_prev.
           and_then (index (sqrt_alphas_cumprod self) t_index) (\<lambda>sac_t.
           and_then (index (sqrt_one_minus_alphas_cumprod self) t_index) (\<lambda>somac_t.
             let sigma = (0::real);
                 (noise, rng') = randn_like x rng;
                 model_mean =
                   tadd (tadd (smul sac_prev x0_pred)
                              (sdiv (smul (sqrt (1 - sac_prev\<^sup>2 - sigma\<^sup>2))
                                          (tsub x (smul sac_t x0_pred))) somac_t))
                        (smul sigma noise)
             in Inr ((model_mean, spec), rng')))))"

definition ddim ::
  "(tensor \<Rightarrow> 'w \<Rightarrow> tensor \<times> 'w) \<Rightarrow> 's module \<Rightarrow> tensor \<Rightarrow> tensor \<Rightarrow> int \<Rightarrow> 'w
     \<Rightarrow> ('s, 'w) outcome" where
  "ddim randn_like self x waveform t_index rng =
     (let t_tensor = replicate (length x) t_index;
          (epsilon, spec) = forward self x waveform t_tensor Plain
      in if t_index = 0 then
           and_then (index (sqrt_one_minus_alphas_cumprod self) t_index) (\<lambda>somac_t.
           and_then (index (sqrt_alphas_cumprod self) t_index) (\<lambda>sac_t.
             let model_mean = sdiv (tsub x (smul somac_t epsilon)) sac_t
             in Inr ((model_mean, spec), rng)))
         else
           and_then (index (sqrt_alphas_cumprod self) (t_index - 1)) (\<lambda>sac_prev.
           and_then (index (sqrt_one_minus_alphas_cumprod self) t_index) (\<lambda>somac_t.
           and_then (index (sqrt_alphas_cumprod self) t_index) (\<lambda>sac_t.
           and_then (index (sqrt_one_minus_alphas_cumprod self) (t_index - 1)) (\<lambda>somac_prev.
             let model_mean =
                   tadd (smul sac_prev (sdiv (tsub x (smul somac_t epsilon)) sac_t))
                        (smul somac_prev epsilon)
             in Inr ((model_mean, spec), rng))))))"

definition ddim2ddpm ::
  "(tensor \<Rightarrow> 'w \<Rightarrow> tensor \<times> 'w) \<Rightarrow> 's module \<Rightarrow> tensor \<Rightarrow> tensor \<Rightarrow> int \<Rightarrow> 'w
     \<Rightarrow> ('s, 'w) outcome" where
  "ddim2ddpm randn_like self x waveform t_index rng =
     (let t_tensor = replicate (length x) t_index;
          (epsilon, spec) = forward self x waveform t_tensor Plain
      in if t_index = 0 then
           and_then (index (sqrt_one_minus_alphas_cumprod self) t_index) (\<lambda>somac_t.
           and_then (index (sqrt_alphas_cumprod self) t_index) (\<lambda>sac_t.
             let model_mean = sdiv (tsub x (smul somac_t epsilon)) sac_t
             in Inr ((model_mean, spec), rng)))
         else
           and_then (index (sqrt_one_minus_alphas_cumprod self) (t_index - 1)) (\<lambda>somac_prev.
           and_then (index (sqrt_one_minus_alphas_cumprod self) t_index) (\<lambda>somac_t.
           and_then (index (alphas self) t_index) (\<lambda>alphas_t.
           and_then (index (sqrt_alphas_cumprod self) (t_index - 1)) (\<lambda>sac_prev.
           and_then (index (sqrt_alphas_cumprod self) t_index) (\<lambda>sac_t.
             let sigma = (somac_prev / somac_t) * sqrt (1 - alphas_t);
                 (noise, rng') = randn_like x rng;
                 model_mean =
                   tadd (tadd (smul sac_prev (sdiv (tsub x (smul somac_t epsilon)) sac_t))
                              (smul (sqrt (1 - sac_prev\<^sup>2 - sigma\<^sup>2)) epsilon))
                        (smul sigma noise)
             in Inr ((model_mean, spec), rng')))))))"

definition cfdg_ddpm_x0 ::
  "(tensor \<Rightarrow> 'w \<Rightarrow> tensor \<times> 'w) \<Rightarrow> 's module \<Rightarrow> tensor \<Rightarrow> tensor \<Rightarrow> int \<Rightarrow> 'w
     \<Rightarrow> ('s, 'w) outcome" where
  "cfdg_ddpm_x0 randn_like self x waveform t_index rng =
     (let t_tensor = replicate (length x) t_index;
          (x0_pred_c, spec) = forward self x waveform t_tensor Plain;
          (x0_pred_0, _) = forward self x (zeros_like waveform) t_tensor Sampling;
          x0_pred = tsub (smul (1 + sampling_w (hparams self)) x0_pred_c)
                         (smul (sampling_w (hparams self)) x0_pred_0)
      in if t_index = 0 then
           and_then (index (sqrt_one_minus_alphas_cumprod self) t_index) (\<lambda>somac_t.
           and_then (index (alphas self) t_index) (\<lambda>alphas_t.
           and_then (index (sqrt_alphas_cumprod self) t_index) (\<lambda>sac_t.
             let sigma = (1 / somac_t) * sqrt (1 - alphas_t);
                 model_mean = sdiv x0_pred sac_t
             in Inr ((model_mean, spec), rng))))
         else
           and_then (index (sqrt_one_minus_alphas_cumprod self) (t_index - 1)) (\<lambda>somac_prev.
           and_then (index (sqrt_one_minus_alphas_cumprod self) t_index) (\<lambda>somac_t.
           and_then (index (alphas self) t_index) (\<lambda>alphas_t.
           and_then (index (sqrt_alphas_cumprod self) (t_index - 1)) (\<lambda>sac_prev.
           and_then (index (sqrt_alphas_cumprod self) t_index) (\<lambda>sac_t.
             let sigma = (somac_prev / somac_t) * sqrt (1 - alphas_t);
                 (noise, rng') = randn_like x rng;
                 model_mean =
                   tadd (tadd (smul sac_prev x0_pred)
                              (sdiv (smul (sqrt (1 - sac_prev\<^sup>2 - sigma\<^sup>2))
                                          (tsub x (smul sac_t x0_pred))) somac_t))
                        (smul sigma noise)
             in Inr ((model_mean, spec), rng')))))))"

definition generation_ddpm_x0 ::
  "(tensor \<Rightarrow> 'w \<Rightarrow> tensor \<times> 'w) \<Rightarrow> 's module \<Rightarrow> tensor \<Rightarrow> tensor \<Rightarrow> int \<Rightarrow> 'w
     \<Rightarrow> ('s, 'w) outcome" where
  "generation_ddpm_x0 randn_like self x waveform t_index rng =
     (let t_tensor = replicate (length x) t_index;
          (x0_pred_0, side) = forward self x (zeros_like waveform) t_tensor Sampling;
          x0_pred = x0_pred_0
      in if t_index = 0 then
           and_then (index (sqrt_one_minus_alphas_cumprod self) t_index) (\<lambda>somac_t.
           and_then (index (alphas self) t_index) (\<lambda>alphas_t.
           and_then (index (sqrt_alphas_cumprod self) t_index) (\<lambda>sac_t.
             let sigma = (1 / somac_t) * sqrt (1 - alphas_t);
                 model_mean = sdiv x0_pred sac_t
             in Inr ((model_mean, side), rng))))
         else
           and_then (index (sqrt_one_minus_alphas_cumprod self) (t_index - 1)) (\<lambda>somac_prev.
           and_then (index (sqrt_one_minus_alphas_cumprod self) t_index) (\<lambda>somac_t.
           and_then (index (alphas self) t_index) (\<lambda>alphas_t.
           and_then (index (sqrt_alphas_cumprod self) (t_index - 1)) (\<lambda>sac_prev.
           and_then (index (sqrt_alphas_cumprod self) t_index) (\<lambda>sac_t.
             let sigma = (somac_prev / somac_t) * sqrt (1 - alphas_t);
                 (noise, rng') = randn_like x rng;
                 model_mean =
                   tadd (tadd (smul sac_prev x0_pred)
                              (sdiv (smul (sqrt (1 - sac_prev\<^sup>2 - sigma\<^sup>2))
                                          (tsub x (smul sac_t x0_pred))) somac_t))
                        (smul sigma noise)
             in Inr ((model_mean, side), rng')))))))"

definition inpainting_ddpm_x0 ::
  "(tensor \<Rightarrow> 'w \<Rightarrow> tensor \<times> 'w) \<Rightarrow> 's module \<Rightarrow> tensor \<Rightarrow> tensor \<Rightarrow> int \<Rightarrow> 'w
     \<Rightarrow> ('s, 'w) outcome" where
  "inpainting_ddpm_x0 randn_like self x waveform t_index rng =
     (let t_tensor = replicate (length x) t_index;
          (x0_pred_c, spec) = forward self x waveform t_tensor
             (Inpainting (inpainting_t (hparams self)) (inpainting_f (hparams self)));
          (x0_pred_0, _) = forward self x (zeros_like waveform) t_tensor Sampling;
          x0_pred = tsub (smul (1 + sampling_w (hparams self)) x0_pred_c)
                         (smul (sampling_w (hparams self)) x0_pred_0)
      in if t_index = 0 then
           and_then (index (sqrt_one_minus_alphas_cumprod self) t_index) (\<lambda>somac_t.
           and_then (index (alphas self) t_index) (\<lambda>alphas_t.
           and_then (index (sqrt_alphas_cumprod self) t_index) (\<lambda>sac_t.
             let sigma = (1 / somac_t) * sqrt (1 - alphas_t);
                 model_mean = sdiv x0_pred sac_t
             in Inr ((model_mean, spec), rng))))
         else
           and_then (index (sqrt_one_minus_alphas_cumprod self) (t_index - 1)) (\<lambda>somac_prev.
           and_then (index (sqrt_one_minus_alphas_cumprod self) t_index) (\<lambda>somac_t.
           and_then (index (alphas self) t_index) (\<lambda>alphas_t.
           and_then (index (sqrt_alphas_cumprod self) (t_index - 1)) (\<lambda>sac_prev.
           and_then (index (sqrt_alphas_cumprod self) t_index) (\<lambda>sac_t.
             let sigma = (somac_prev / somac_t) * sqrt (1 - alphas_t);
                 (noise, rng') = randn_like x rng;
                 model_mean =
                   tadd (tadd (smul sac_prev x0_pred)
                              (sdiv (smul (sqrt (1 - sac_prev\<^sup>2 - sigma\<^sup>2))
                                          (tsub x (smul sac_t x0_pred))) somac_t))
                        (smul sigma noise)
             in Inr ((model_mean, spec), rng')))))))"

text \<open>
  \<open>cfdg_ddim_x0\<close> calls the network three times: a first conditional call whose results
  are overwritten, the conditional call again, and a call on the zeroed condition
  without \<open>sampling=True\<close>.
\<close>

definition cfdg_ddim_x0 ::
  "(tensor \<Rightarrow> 'w \<Rightarrow> tensor \<times> 'w) \<Rightarrow> 's module \<Rightarrow> tensor \<Rightarrow> tensor \<Rightarrow> int \<Rightarrow> 'w
     \<Rightarrow> ('s, 'w) outcome" where
  "cfdg_ddim_x0 randn_like self x waveform t_index rng =
     (let t_tensor = replicate (length x) t_index;
          (x0_pred, spec) = forward self x waveform t_tensor Plain;
          (x0_pred_c, spec) = forward self x waveform t_tensor Plain;
          (x0_pred_0, _) = forward self x (zeros_like waveform) t_tensor Plain;
          x0_pred = tsub (smul (1 + sampling_w (hparams self)) x0_pred_c)
                         (smul (sampling_w (hparams self)) x0_pred_0)
      in if t_index = 0 then
           and_then (index (sqrt_alphas_cumprod self) t_index) (\<lambda>sac_t.
             let sigma = (0::real);
                 model_mean = sdiv x0_pred sac_t
             in Inr ((model_mean, spec), rng))
         else
           and_then (index (sqrt_alphas_cumprod self) (t_index - 1)) (\<lambda>sac_prev.
           and_then (index (sqrt_alphas_cumprod self) t_index) (\<lambda>sac_t.
           and_then (index (sqrt_one_minus_alphas_cumprod self) t_index) (\<lambda>somac_t.
             let sigma = (0::real);
                 (noise, rng') = randn_like x rng;
                 model_mean =
                   tadd (tadd (smul sac_prev x0_pred)
                              (sdiv (smul (sqrt (1 - sac_prev\<^sup>2 - sigma\<^sup>2))
                                          (tsub x (smul sac_t x0_pred))) somac_t))
                        (smul sigma noise)
             in Inr ((model_mean, spec), rng')))))"

text \<open>The bound method that \<open>self.reverse_diffusion\<close> is, for each strategy.\<close>

fun strategy ::
  "variant \<Rightarrow> (tensor \<Rightarrow> 'w \<Rightarrow> tensor \<times> 'w) \<Rightarrow> 's module \<Rightarrow> tensor \<Rightarrow> tensor \<Rightarrow> int \<Rightarrow> 'w
     \<Rightarrow> ('s, 'w) outcome" where
  "strategy Ddpm = ddpm"
| "strategy Ddpm_x0 = ddpm_x0"
| "strategy Ddim_x0 = ddim_x0"
| "strategy Ddim = ddim"
| "strategy Ddim2ddpm = ddim2ddpm"
| "strategy Cfdg_ddpm_x0 = cfdg_ddpm_x0"
| "strategy Generation_ddpm_x0 = generation_ddpm_x0"
| "strategy Inpainting_ddpm_x0 = inpainting_ddpm_x0"
| "strategy Cfdg_ddim_x0 = cfdg_ddim_x0"

section \<open>Construction and losses\<close>

datatype diffusion_class = SpecRollDiffusion | LatentRollDiffusion




text \<open>
  The schedule part of \<open>__init__\<close>, on the integer hyperparameter \<open>timesteps\<close>.
  \<open>cosine_beta_schedule(timesteps)\<close> calls \<open>torch.linspace(0, timesteps, timesteps + 1)\<close>,
  which raises RuntimeError for a negative number of steps, and reads
  \<open>alphas_cumprod[0]\<close>, which raises IndexError when there are no steps; from
  \<open>timesteps = 0\<close> on it returns, and the tables are those of \<open>build_schedule\<close>.
  \<open>LatentRollDiffusion.__init__\<close> then prints \<open>alphas_cumprod[0]\<close> and
  \<open>alphas_cumprod[-1]\<close>, which raises IndexError on the empty schedule of
  \<open>timesteps = 0\<close>; \<open>SpecRollDiffusion.__init__\<close> has no such read.
\<close>

definition init_schedule :: "diffusion_class \<Rightarrow> int \<Rightarrow> error + schedule" where
  "init_schedule cls timesteps' =
     (if timesteps' + 1 < 0 then Inl RuntimeError
      else if timesteps' + 1 = 0 then Inl IndexError
      else
        let sch = build_schedule (nat timesteps');
            alphas_cumprod = cumprod (alphas sch)
        in case cls of
             SpecRollDiffusion \<Rightarrow> Inr sch
           | LatentRollDiffusion \<Rightarrow>
               and_then (index alphas_cumprod 0) (\<lambda>first_alpha.
               and_then (index alphas_cumprod (- 1)) (\<lambda>last_alpha. Inr sch)))"







section \<open>Sampling loops\<close>

record batch =
  frame :: tensor
  audio :: tensor
  dac_latents :: tensor

text \<open>
  The variables of the loop: the current state \<open>noise\<close>, the trace \<open>noise_list\<close> of
  \<open>(state, t)\<close> pairs, the side channel of the last step (unbound before the first
  step) and the generator state. \<open>calls\<close> is not a variable of the source: it logs the
  arguments \<open>(state, t_index, generator state)\<close> of every invocation of
  \<open>self.reverse_diffusion\<close>, to state how often and on what the strategy is invoked.
\<close>

record ('s, 'w) loop_state =
  noise :: tensor
  noise_list :: "(tensor \<times> int) list"
  side :: "'s option"
  calls :: "(tensor \<times> int \<times> 'w) list"
  generator :: 'w

text \<open>
  \<open>reversed(range(0, n))\<close> for \<open>n \<ge> 0\<close>; a negative bound gives the empty range, as
  \<open>n = 0\<close> does.
\<close>

definition reversed_range :: "nat \<Rightarrow> int list" where
  "reversed_range n = rev (map int [0..<n])"

text \<open>
  The body of \<open>for t_index in reversed(range(0, n))\<close>, common to both \<open>sampling\<close>
  methods: one call of the strategy on the current state, whose result replaces the
  state and is appended to the trace. An exception of the strategy ends the loop.
\<close>

fun sampling_loop ::
  "(tensor \<Rightarrow> tensor \<Rightarrow> int \<Rightarrow> 'w \<Rightarrow> ('s, 'w) outcome) \<Rightarrow> tensor \<Rightarrow> int list
     \<Rightarrow> ('s, 'w) loop_state \<Rightarrow> error + ('s, 'w) loop_state" where
  "sampling_loop reverse_diffusion' cond [] st = Inr st"
| "sampling_loop reverse_diffusion' cond (t_index # ts) st =
     (case reverse_diffusion' (noise st) cond t_index (generator st) of
        Inl e \<Rightarrow> Inl e
      | Inr ((noise', spec), rng') \<Rightarrow>
          sampling_loop reverse_diffusion' cond ts
            (st\<lparr> noise := noise',
                 noise_list := noise_list st @ [(noise', t_index)],
                 side := Some spec,
                 calls := calls st @ [(noise st, t_index, generator st)],
                 generator := rng' \<rparr>))"

text \<open>
  \<open>SpecRollDiffusion.sampling\<close>: the block marked DEBUG is live code. The start state is
  the clean roll corrupted by \<open>q_sample\<close> at timestep \<open>fixed_t - 1\<close> with \<open>fixed_t = 175\<close>,
  recorded with \<open>t = fixed_t\<close>, and the loop runs over \<open>reversed(range(0, fixed_t))\<close>,
  whatever \<open>self.hparams.timesteps\<close> is. \<open>normalize'\<close> is the module's \<open>self.normalize\<close>,
  defined outside the modelled file. The method returns the trace and the side channel of
  the last step.
\<close>

definition spec_sampling_run ::
  "(tensor \<Rightarrow> 'w \<Rightarrow> tensor \<times> 'w) \<Rightarrow> (tensor \<Rightarrow> tensor) \<Rightarrow> 's module
     \<Rightarrow> (tensor \<Rightarrow> tensor \<Rightarrow> int \<Rightarrow> 'w \<Rightarrow> ('s, 'w) outcome) \<Rightarrow> batch \<Rightarrow> 'w
     \<Rightarrow> error + ('s, 'w) loop_state" where
  "spec_sampling_run randn_like normalize' self reverse_diffusion' b rng0 =
     (let batch_size = length (frame b);
          roll = normalize' (frame b);
          waveform = audio b;
          (noise0, rng1) = randn_like roll rng0;
          fixed_t = (175::nat);
          t = replicate batch_size (int fixed_t - 1)
      in and_then (q_sample roll t (sqrt_alphas_cumprod self)
                     (sqrt_one_minus_alphas_cumprod self) (Some noise0)) (\<lambda>x_t.
           sampling_loop reverse_diffusion'
             (if debug (hparams self) then roll else waveform)
             (reversed_range fixed_t)
             \<lparr> noise = x_t, noise_list = [(x_t, int fixed_t)], side = None,
               calls = [], generator = rng1 \<rparr>))"

definition spec_sampling ::
  "(tensor \<Rightarrow> 'w \<Rightarrow> tensor \<times> 'w) \<Rightarrow> (tensor \<Rightarrow> tensor) \<Rightarrow> 's module
     \<Rightarrow> (tensor \<Rightarrow> tensor \<Rightarrow> int \<Rightarrow> 'w \<Rightarrow> ('s, 'w) outcome) \<Rightarrow> batch \<Rightarrow> 'w
     \<Rightarrow> error + ((tensor \<times> int) list \<times> 's)" where
  "spec_sampling randn_like normalize' self reverse_diffusion' b rng0 =
     and_then (spec_sampling_run randn_like normalize' self reverse_diffusion' b rng0) (\<lambda>st.
       case side st of
         None \<Rightarrow> Inl NameError
       | Some spec \<Rightarrow> Inr (noise_list st, spec))"

text \<open>
  \<open>LatentRollDiffusion.sampling\<close>: the start state is pure noise, recorded with
  \<open>t = self.hparams.timesteps\<close>, and the loop runs over
  \<open>reversed(range(0, self.hparams.timesteps))\<close>. The method returns the trace and the
  latents of the batch.
\<close>

definition latent_sampling_run ::
  "(tensor \<Rightarrow> 'w \<Rightarrow> tensor \<times> 'w) \<Rightarrow> (tensor \<Rightarrow> tensor) \<Rightarrow> 's module
     \<Rightarrow> (tensor \<Rightarrow> tensor \<Rightarrow> int \<Rightarrow> 'w \<Rightarrow> ('s, 'w) outcome) \<Rightarrow> batch \<Rightarrow> 'w
     \<Rightarrow> error + ('s, 'w) loop_state" where
  "latent_sampling_run randn_like normalize' self reverse_diffusion' b rng0 =
     (let roll = normalize' (frame b);
          latents = dac_latents b;
          (noise0, rng1) = randn_like roll rng0
      in sampling_loop reverse_diffusion'
           (if debug (hparams self) then roll else latents)
           (reversed_range (nat (timesteps (hparams self))))
           \<lparr> noise = noise0, noise_list = [(noise0, timesteps (hparams self))],
             side = None, calls = [], generator = rng1 \<rparr>)"

definition latent_sampling ::
  "(tensor \<Rightarrow> 'w \<Rightarrow> tensor \<times> 'w) \<Rightarrow> (tensor \<Rightarrow> tensor) \<Rightarrow> 's module
     \<Rightarrow> (tensor \<Rightarrow> tensor \<Rightarrow> int \<Rightarrow> 'w \<Rightarrow> ('s, 'w) outcome) \<Rightarrow> batch \<Rightarrow> 'w
     \<Rightarrow> error + ((tensor \<times> int) list \<times> tensor)" where
  "latent_sampling randn_like normalize' self reverse_diffusion' b rng0 =
     and_then (latent_sampling_run randn_like normalize' self reverse_diffusion' b rng0) (\<lambda>st.
       Inr (noise_list st, dac_latents b))"

text \<open>
  How a call log and a trace fit together: the trace has one entry more than the log,
  call \<open>i\<close> was made on the state of trace entry \<open>i\<close>, and trace entry \<open>i + 1\<close> holds the
  state that call returned together with the \<open>t_index\<close> of the call.
\<close>

definition chained ::
  "(tensor \<Rightarrow> tensor \<Rightarrow> int \<Rightarrow> 'w \<Rightarrow> ('s, 'w) outcome) \<Rightarrow> tensor
     \<Rightarrow> (tensor \<times> int \<times> 'w) list \<Rightarrow> (tensor \<times> int) list \<Rightarrow> bool" where
  "chained reverse_diffusion' cond cs trace \<longleftrightarrow>
     length trace = Suc (length cs)
     \<and> list_all (\<lambda>i. case cs ! i of (x, t_index, g) \<Rightarrow>
           x = fst (trace ! i)
           \<and> snd (trace ! Suc i) = t_index
           \<and> map_sum id fst (returned (reverse_diffusion' x cond t_index g))
               = Inr (fst (trace ! Suc i)))
         [0..<length cs]"

section \<open>Concrete inputs\<close>

text \<open>
  A module with two timesteps for the worked examples: the tables of
  \<open>alphas_cumprod = [16/25, 9/25]\<close>, a network whose conditional prediction is the state
  plus the condition and whose prediction under \<open>sampling=True\<close> is half the state, and a
  generator whose state is a counter and whose draw is the constant tensor of that
  counter.
\<close>

definition example_schedule :: schedule where
  "example_schedule =
     \<lparr> betas = [9/25, 7/16],
       alphas = [16/25, 9/16],
       sqrt_recip_alphas = [5/4, 4/3],
       sqrt_alphas_cumprod = [4/5, 3/5],
       sqrt_one_minus_alphas_cumprod = [3/5, 4/5],
       posterior_variance = [0, 63/256] \<rparr>"

definition example_network :: "unit network" where
  "example_network x c t k =
     (case k of Sampling \<Rightarrow> (smul (1/2) x, ()) | _ \<Rightarrow> (tadd x c, ()))"

definition example_module :: "real \<Rightarrow> unit module" where
  "example_module w =
     schedule.extend example_schedule
       (module.fields
          \<lparr> timesteps = 2, loss_type = ''l1'', sampling_type = ''cfdg_ddpm_x0'',
            sampling_w = w, inpainting_t = 0, inpainting_f = 0, debug = False \<rparr>
          example_network (Strategy Cfdg_ddpm_x0))"

definition example_randn_like :: "tensor \<Rightarrow> nat \<Rightarrow> tensor \<times> nat" where
  "example_randn_like x seed = (map (map (\<lambda>_. real seed)) x, Suc seed)"

text \<open>
  A module with the schedule that the constructors build for \<open>timesteps = 200\<close>, and a
  batch of one sample with two entries.
\<close>

definition example_module_200 :: "unit module" where
  "example_module_200 =
     schedule.extend (build_schedule 200)
       (module.fields
          \<lparr> timesteps = 200, loss_type = ''l1'', sampling_type = ''ddim'',
            sampling_w = 0, inpainting_t = 0, inpainting_f = 0, debug = False \<rparr>
          example_network (Strategy Ddim))"

definition example_batch :: batch where
  "example_batch = \<lparr> frame = [[1, 0]], audio = [[3, 4]], dac_latents = [[5, 6]] \<rparr>"



text \<open>
  Two activation grids of two bins: one holding two notes, one entirely at or below the
  threshold 0.5.
\<close>

definition example_grid :: "real list list" where
  "example_grid = [[0.9, 0.1], [0.8, 0.1], [0.2, 0.7], [0.1, 0.6]]"

definition example_quiet_grid :: "real list list" where
  "example_quiet_grid = [[0.5, 0.1], [0.3, 0.5]]"

section \<open>Properties of the forward process\<close>

lemma index_in_range:
  "0 \<le> i \<Longrightarrow> i < int (length xs) \<Longrightarrow> index xs i = Inr (xs ! nat i)"
  by (simp add: index_def)

lemma gather_in_range:
  "\<forall>i \<in> set t. 0 \<le> i \<and> i < int (length xs) \<Longrightarrow>
   gather xs t = Inr (map (\<lambda>i. xs ! nat i) t)"
  by (induction t) (simp_all add: index_in_range)

lemma round_trip_sample:
  fixes a b :: real
  assumes "a \<noteq> 0" "length n = length x"
  shows "map (\<lambda>v. v / a) (map2 (-) (map2 (+) (map ((*) a) x) (map ((*) b) n)) (map ((*) b) n)) = x"
  using assms
proof (induction x arbitrary: n)
  case Nil
  then show ?case by simp
next
  case (Cons v x)
  then obtain m n' where "n = m # n'" by (cases n) auto
  with Cons show ?case by simp
qed

lemma round_trip_batch:
  assumes "length as = length x" "length bs = length x" "shape n = shape x"
    and "\<forall>a \<in> set as. a \<noteq> 0"
  shows "bdiv (tsub (tadd (bmul as x) (bmul bs n)) (bmul bs n)) as = x"
  using assms
proof (induction x arbitrary: as bs n)
  case Nil
  then show ?case by (simp add: bdiv_def tsub_def tadd_def bmul_def)
next
  case (Cons s x)
  obtain a as' where as: "as = a # as'" using Cons.prems(1) by (cases as) auto
  obtain b bs' where bs: "bs = b # bs'" using Cons.prems(2) by (cases bs) auto
  obtain m n' where n: "n = m # n'" using Cons.prems(3) by (cases n) (auto simp: shape_def)
  have len: "length m = length s" and sh: "shape n' = shape x"
    using Cons.prems(3) n by (simp_all add: shape_def)
  have nz: "a \<noteq> 0" and nz': "\<forall>a \<in> set as'. a \<noteq> 0"
    using Cons.prems(4) as by simp_all
  have ih: "bdiv (tsub (tadd (bmul as' x) (bmul bs' n')) (bmul bs' n')) as' = x"
    using Cons.IH [of as' bs' n'] Cons.prems(1,2) as bs sh nz' by simp
  have hd: "map (\<lambda>v. v / a) (map2 (-) (map2 (+) (map ((*) a) s) (map ((*) b) m)) (map ((*) b) m)) = s"
    using round_trip_sample [OF nz len] .
  show ?case
    using ih hd by (simp add: as bs n bdiv_def tsub_def tadd_def bmul_def)
qed

text \<open>
  C3. Round trip: for a clean sample \<open>x0\<close>, a noise tensor \<open>n\<close> of the same shape and a
  timestep vector \<open>t\<close> with one valid timestep per batch element, where
  \<open>sqrt_alphas_cumprod\<close> is nonzero at every timestep of \<open>t\<close>, \<open>q_sample\<close> returns a
  tensor \<open>x_t\<close> and \<open>extract_x0\<close> on \<open>x_t\<close> with the injected noise returns \<open>x0\<close>.
\<close>

theorem extract_x0_q_sample_round_trip:
  assumes "length t = length x0" and "shape n = shape x0"
    and "length sac = T" and "length somac = T"
    and "\<forall>i \<in> set t. 0 \<le> i \<and> i < int T"
    and "\<forall>i \<in> set t. sac ! nat i \<noteq> 0"
  shows "\<exists>x_t. q_sample x0 t sac somac (Some n) = Inr x_t
           \<and> extract_x0 x_t n t sac somac = Inr x0"
proof -
  let ?as = "map (\<lambda>i. sac ! nat i) t" and ?bs = "map (\<lambda>i. somac ! nat i) t"
  have ga: "gather sac t = Inr ?as" and gb: "gather somac t = Inr ?bs"
    using assms(3,4,5) by (simp_all add: gather_in_range)
  have nz: "\<forall>a \<in> set ?as. a \<noteq> 0" using assms(6) by auto
  have "bdiv (tsub (tadd (bmul ?as x0) (bmul ?bs n)) (bmul ?bs n)) ?as = x0"
    using round_trip_batch [of ?as x0 ?bs n] assms(1,2) nz by simp
  then show ?thesis by (simp add: q_sample_def extract_x0_def ga gb)
qed

theorem extract_x0_q_sample_round_trip_witness:
  "q_sample [[2, 4], [8, -4]] [0, 1] [1/2, 1/4] [3, 2] (Some [[1, 3], [4, 6]])
     = Inr [[4, 11], [10, 11]]
   \<and> (\<exists>x_t. q_sample [[2, 4], [8, -4]] [0, 1] [1/2, 1/4] [3, 2] (Some [[1, 3], [4, 6]]) = Inr x_t
        \<and> extract_x0 x_t [[1, 3], [4, 6]] [0, 1] [1/2, 1/4] [3, 2] = Inr [[2, 4], [8, -4]])"
proof -
  have "\<exists>x_t. q_sample [[2, 4], [8, -4]] [0, 1] [1/2, 1/4] [3, 2] (Some [[1, 3], [4, 6]]) = Inr x_t
        \<and> extract_x0 x_t [[1, 3], [4, 6]] [0, 1] [1/2, 1/4] [3, 2] = Inr [[2, 4], [8, -4]]"
    by (rule extract_x0_q_sample_round_trip [where T = 2]) (simp_all add: shape_def)
  moreover have "q_sample [[2, 4], [8, -4]] [0, 1] [1/2, 1/4] [3, 2] (Some [[1, 3], [4, 6]])
      = Inr [[4, 11], [10, 11]]"
    by (simp add: q_sample_def index_def tadd_def bmul_def)
  ultimately show ?thesis by simp
qed

text \<open>
  C5. \<open>q_sample\<close> called without a noise argument on valid timesteps: the source has no
  branch that draws noise, and the call raises TypeError at the product with \<open>None\<close>.
\<close>

theorem q_sample_without_noise_raises:
  "q_sample [[1]] [0] [1] [0] None = Inl TypeError"
  by (simp add: q_sample_def index_def)

section \<open>Properties of the noise schedule\<close>

lemma length_cosine_alphas_cumprod [simp]:
  "length (cosine_alphas_cumprod T s) = T + 1"
  by (simp add: cosine_alphas_cumprod_def linspace_def)

lemma length_cosine_beta_schedule [simp]: "length (cosine_beta_schedule T) = T"
  by (simp add: cosine_beta_schedule_def cosine_beta_schedule_s_def Let_def)

lemma clip_bounds: "lo \<le> hi \<Longrightarrow> lo \<le> clip v lo hi \<and> clip v lo hi \<le> hi"
  by (simp add: clip_def)

lemma cosine_beta_schedule_bounds:
  "b \<in> set (cosine_beta_schedule T) \<Longrightarrow> 0.0001 \<le> b \<and> b \<le> 0.9999"
proof -
  assume "b \<in> set (cosine_beta_schedule T)"
  then obtain v where "b = clip v 0.0001 0.9999"
    by (auto simp: cosine_beta_schedule_def cosine_beta_schedule_s_def Let_def)
  then show ?thesis using clip_bounds [of "0.0001" "0.9999" v] by simp
qed

lemma length_cumprod_from [simp]: "length (cumprod_from acc xs) = length xs"
  by (induction xs arbitrary: acc) simp_all

lemma cumprod_from_bounds:
  "0 < acc \<Longrightarrow> \<forall>a \<in> set xs. 0 < a \<and> a < 1 \<Longrightarrow>
   \<forall>v \<in> set (cumprod_from acc xs). 0 < v \<and> v < acc"
proof (induction xs arbitrary: acc)
  case Nil
  then show ?case by simp
next
  case (Cons x xs)
  have x: "0 < x" "x < 1" using Cons.prems(2) by simp_all
  have rest: "\<forall>a \<in> set xs. 0 < a \<and> a < 1" using Cons.prems(2) by simp
  have pos: "0 < acc * x" using Cons.prems(1) x by simp
  have lt: "acc * x < acc" using Cons.prems(1) x by simp
  have "\<forall>v \<in> set (cumprod_from (acc * x) xs). 0 < v \<and> v < acc * x"
    using Cons.IH [OF pos rest] .
  with pos lt show ?case by fastforce
qed

lemma cumprod_from_decreasing:
  "0 < acc \<Longrightarrow> \<forall>a \<in> set xs. 0 < a \<and> a < 1 \<Longrightarrow>
   sorted_wrt (\<lambda>u v. v < u) (cumprod_from acc xs)"
proof (induction xs arbitrary: acc)
  case Nil
  then show ?case by simp
next
  case (Cons x xs)
  have x: "0 < x" "x < 1" using Cons.prems(2) by simp_all
  have rest: "\<forall>a \<in> set xs. 0 < a \<and> a < 1" using Cons.prems(2) by simp
  have pos: "0 < acc * x" using Cons.prems(1) x by simp
  have "\<forall>v \<in> set (cumprod_from (acc * x) xs). 0 < v \<and> v < acc * x"
    using cumprod_from_bounds [OF pos rest] .
  moreover have "sorted_wrt (\<lambda>u v. v < u) (cumprod_from (acc * x) xs)"
    using Cons.IH [OF pos rest] .
  ultimately show ?case by simp
qed


lemma alphas_unit:
  "\<forall>a \<in> set (alphas_of (cosine_beta_schedule T)). 0 < a \<and> a < 1"
  using cosine_beta_schedule_bounds [of _ T] by (fastforce simp: alphas_of_def)

lemma alphas_cumprod_decreasing:
  "i < j \<Longrightarrow> j < T \<Longrightarrow>
   cumprod (alphas_of (cosine_beta_schedule T)) ! j < cumprod (alphas_of (cosine_beta_schedule T)) ! i"
proof -
  assume ij: "i < j" "j < T"
  let ?ac = "cumprod (alphas_of (cosine_beta_schedule T))"
  have "sorted_wrt (\<lambda>u v. v < u) ?ac"
    unfolding cumprod_def by (rule cumprod_from_decreasing) (simp_all add: alphas_unit)
  moreover have "j < length ?ac" using ij by (simp add: cumprod_def alphas_of_def)
  ultimately show ?thesis using sorted_wrt_nth_less [of "\<lambda>u v. v < u" ?ac i j] ij(1) by simp
qed

lemma alphas_cumprod_unit:
  "t < T \<Longrightarrow> 0 < cumprod (alphas_of (cosine_beta_schedule T)) ! t 
     \<and> cumprod (alphas_of (cosine_beta_schedule T)) ! t < 1"
proof -
  assume t: "t < T"
  let ?ac = "cumprod (alphas_of (cosine_beta_schedule T))"
  have "\<forall>v \<in> set ?ac. 0 < v \<and> v < 1"
    unfolding cumprod_def by (rule cumprod_from_bounds) (simp_all add: alphas_unit)
  moreover have "t < length ?ac" using t by (simp add: cumprod_def alphas_of_def)
  ultimately show ?thesis by (meson nth_mem)
qed

lemma cos_arg_pos:
  assumes "i < T"
  shows "0 < cos (((real i / real T) + 0.008) / (1 + 0.008) * pi * 0.5)"
proof -
  define q where "q = real i / real T"
  have q: "0 \<le> q" "q < 1" using assms by (simp_all add: q_def)
  have b: "0 < (q + 0.008) / (1 + 0.008)" "(q + 0.008) / (1 + 0.008) < 1"
    using q by simp_all
  have "0 < (q + 0.008) / (1 + 0.008) * pi * 0.5"
    using b(1) pi_gt_zero by simp
  moreover have "(q + 0.008) / (1 + 0.008) * pi * 0.5 < pi / 2"
    using b(2) pi_gt_zero by simp
  ultimately show ?thesis unfolding q_def [symmetric] by (simp add: cos_gt_zero)
qed

lemma nth_linspace_unit:
  "i \<le> T \<Longrightarrow> linspace 0 (real T) (T + 1) ! i = real i"
  by (cases "T = 0") (simp_all add: linspace_def nth_append del: upt_Suc)

lemma cosine_alphas_cumprod_pos:
  assumes "i < T"
  shows "0 < cosine_alphas_cumprod T 0.008 ! i"
proof -
  have "cosine_alphas_cumprod T 0.008 ! i
      = (cos (((real i / real T) + 0.008) / (1 + 0.008) * pi * 0.5))\<^sup>2"
    using assms by (simp add: cosine_alphas_cumprod_def nth_linspace_unit linspace_def del: upt_Suc)
  then show ?thesis using cos_arg_pos [OF assms] by simp
qed

lemma length_alphas_cumprod [simp]:
  "length (cumprod (alphas_of (cosine_beta_schedule T))) = T"
  by (simp add: cumprod_def alphas_of_def)

lemma posterior_variance_nth:
  assumes "t < T"
  shows "posterior_variance (build_schedule T) ! t
     = cosine_beta_schedule T ! t
         * (1 - (1 # butlast (cumprod (alphas_of (cosine_beta_schedule T)))) ! t)
         / (1 - cumprod (alphas_of (cosine_beta_schedule T)) ! t)"
  using assms by (cases t) (simp_all add: build_schedule_def Let_def)

lemma length_posterior_variance: "length (posterior_variance (build_schedule T)) = T"
  by (cases "T = 0") (simp_all add: build_schedule_def Let_def)

text \<open>
  Building the schedule divides by the first entry of the cosine curve and by every
  entry but the last; none of them is zero, so no division by zero occurs there.
\<close>

lemma cosine_schedule_denominators:
  assumes "1 \<le> T"
  shows "cosine_alphas_cumprod T 0.008 ! 0 \<noteq> 0"
    and "\<forall>d \<in> set (butlast (map (\<lambda>a. a / (cosine_alphas_cumprod T 0.008 ! 0))
                         (cosine_alphas_cumprod T 0.008))). d \<noteq> 0"
proof -
  let ?ac = "cosine_alphas_cumprod T 0.008"
  show z: "?ac ! 0 \<noteq> 0" using cosine_alphas_cumprod_pos [of 0 T] assms by simp
  show "\<forall>d \<in> set (butlast (map (\<lambda>a. a / (?ac ! 0)) ?ac)). d \<noteq> 0"
  proof
    fix d assume "d \<in> set (butlast (map (\<lambda>a. a / (?ac ! 0)) ?ac))"
    then obtain i where i: "i < T" "d = butlast (map (\<lambda>a. a / (?ac ! 0)) ?ac) ! i"
      by (auto simp: in_set_conv_nth)
    then have "d = ?ac ! i / (?ac ! 0)" by (simp add: nth_butlast)
    then show "d \<noteq> 0" using z cosine_alphas_cumprod_pos [OF i(1)] by simp
  qed
qed

text \<open>
  C6. The cosine schedule for \<open>timesteps = 10\<close> has exactly 10 betas, each in
  \<open>[0.0001, 0.9999]\<close>; the cumulative product of \<open>1 - beta\<close> is non-increasing, and its
  entry 9 is below its entry 0.
\<close>

theorem cosine_schedule_ten:
  "length (cosine_beta_schedule 10) = 10
   \<and> (\<forall>b \<in> set (cosine_beta_schedule 10). 0.0001 \<le> b \<and> b \<le> 0.9999)
   \<and> (\<forall>i j. i \<le> j \<and> j < 10 \<longrightarrow>
         cumprod (alphas_of (cosine_beta_schedule 10)) ! j
           \<le> cumprod (alphas_of (cosine_beta_schedule 10)) ! i)
   \<and> cumprod (alphas_of (cosine_beta_schedule 10)) ! 9
       < cumprod (alphas_of (cosine_beta_schedule 10)) ! 0"
proof (intro conjI ballI allI impI)
  show "length (cosine_beta_schedule 10) = 10" by simp
next
  fix b assume "b \<in> set (cosine_beta_schedule 10)"
  then show "0.0001 \<le> b" "b \<le> 0.9999"
    using cosine_beta_schedule_bounds by blast+
next
  fix i j :: nat assume ij: "i \<le> j \<and> j < 10"
  show "cumprod (alphas_of (cosine_beta_schedule 10)) ! j
           \<le> cumprod (alphas_of (cosine_beta_schedule 10)) ! i"
  proof (cases "i = j")
    case True
    then show ?thesis by simp
  next
    case False
    then have "i < j" using ij by simp
    then show ?thesis using alphas_cumprod_decreasing [of i j 10] ij by simp
  qed
next
  show "cumprod (alphas_of (cosine_beta_schedule 10)) ! 9
       < cumprod (alphas_of (cosine_beta_schedule 10)) ! 0"
    by (rule alphas_cumprod_decreasing) simp_all
qed

theorem cosine_schedule_ten_witness:
  "0.0001 \<le> cosine_beta_schedule 10 ! 3 \<and> cosine_beta_schedule 10 ! 3 \<le> 0.9999
   \<and> cumprod (alphas_of (cosine_beta_schedule 10)) ! 7
       \<le> cumprod (alphas_of (cosine_beta_schedule 10)) ! 2"
proof -
  note len = cosine_schedule_ten [THEN conjunct1]
  note bnd = cosine_schedule_ten [THEN conjunct2, THEN conjunct1]
  note mono = cosine_schedule_ten [THEN conjunct2, THEN conjunct2, THEN conjunct1]
  have "3 < length (cosine_beta_schedule 10)" unfolding len by simp
  then have mem: "cosine_beta_schedule 10 ! 3 \<in> set (cosine_beta_schedule 10)"
    by (rule nth_mem)
  have b: "0.0001 \<le> cosine_beta_schedule 10 ! 3 \<and> cosine_beta_schedule 10 ! 3 \<le> 0.9999"
    using bnd mem by (rule bspec)
  have ij: "(2::nat) \<le> 7 \<and> (7::nat) < 10" by simp
  have m: "cumprod (alphas_of (cosine_beta_schedule 10)) ! 7
       \<le> cumprod (alphas_of (cosine_beta_schedule 10)) ! 2"
    using mono [THEN spec, THEN spec, THEN mp, OF ij] .
  show ?thesis using b m by (intro conjI) (rule conjunct1, assumption, rule conjunct2, assumption)
qed

text \<open>
  C10. For every schedule built by the constructors with \<open>timesteps \<ge> 1\<close>,
  \<open>posterior_variance[0] = 0\<close> and \<open>posterior_variance[t] \<ge> 0\<close> for \<open>t \<ge> 1\<close>; the
  denominators \<open>1 - alphas_cumprod[t]\<close> are positive, so the quotient is a quotient of
  reals at every index.
\<close>

theorem posterior_variance_first_zero:
  assumes "1 \<le> T"
  shows "posterior_variance (build_schedule T) ! 0 = 0
       \<and> (\<forall>t. 1 \<le> t \<and> t < T \<longrightarrow> 0 \<le> posterior_variance (build_schedule T) ! t)
       \<and> (\<forall>t < T. 0 < 1 - cumprod (alphas_of (cosine_beta_schedule T)) ! t)"
proof (intro conjI allI impI)
  show "posterior_variance (build_schedule T) ! 0 = 0"
    using assms by (simp add: posterior_variance_nth)
next
  fix t assume t: "1 \<le> t \<and> t < T"
  let ?ac = "cumprod (alphas_of (cosine_beta_schedule T))"
  have prev: "(1 # butlast ?ac) ! t = ?ac ! (t - 1)"
    using t by (cases t) (simp_all add: nth_butlast)
  have "t - 1 < T" using t by arith
  then have "0 < ?ac ! (t - 1) \<and> ?ac ! (t - 1) < 1"
    by (rule alphas_cumprod_unit)
  moreover have "0 < ?ac ! t \<and> ?ac ! t < 1" using t by (intro alphas_cumprod_unit) simp
  moreover have "0 \<le> cosine_beta_schedule T ! t"
    using cosine_beta_schedule_bounds [of "cosine_beta_schedule T ! t" T] t by simp
  ultimately show "0 \<le> posterior_variance (build_schedule T) ! t"
    using t by (simp add: posterior_variance_nth prev)
next
  fix t assume "t < T"
  then show "0 < 1 - cumprod (alphas_of (cosine_beta_schedule T)) ! t"
    using alphas_cumprod_unit [of t T] by simp
qed

theorem posterior_variance_first_zero_witness:
  "(1::nat) \<le> 10 \<and> posterior_variance (build_schedule 10) ! 0 = 0
   \<and> 0 \<le> posterior_variance (build_schedule 10) ! 4
   \<and> 0 < 1 - cumprod (alphas_of (cosine_beta_schedule 10)) ! 4"
proof -
  have h: "(1::nat) \<le> 10" by simp
  note pv = posterior_variance_first_zero [OF h]
  have t: "(1::nat) \<le> 4 \<and> (4::nat) < 10" and t': "(4::nat) < 10" by simp_all
  have a: "posterior_variance (build_schedule 10) ! 0 = 0" using pv by (rule conjunct1)
  have b: "0 \<le> posterior_variance (build_schedule 10) ! 4"
    using pv [THEN conjunct2, THEN conjunct1, THEN spec, THEN mp, OF t] .
  have c: "0 < 1 - cumprod (alphas_of (cosine_beta_schedule 10)) ! 4"
    using pv [THEN conjunct2, THEN conjunct2, THEN spec, THEN mp, OF t'] .
  show ?thesis using h a b c by (intro conjI)
qed

section \<open>Properties of the reverse-step strategies\<close>

lemma example_module_simps [simp]:
  "betas (example_module w) = [9/25, 7/16]"
  "alphas (example_module w) = [16/25, 9/16]"
  "sqrt_recip_alphas (example_module w) = [5/4, 4/3]"
  "sqrt_alphas_cumprod (example_module w) = [4/5, 3/5]"
  "sqrt_one_minus_alphas_cumprod (example_module w) = [3/5, 4/5]"
  "posterior_variance (example_module w) = [0, 63/256]"
  "forward (example_module w) = example_network"
  "sampling_w (hparams (example_module w)) = w"
  "timesteps (hparams (example_module w)) = 2"
  "debug (hparams (example_module w)) = False"
  by (simp_all add: example_module_def example_schedule_def schedule.defs module.defs)


lemma guided_zero_row:
  fixes a b :: "real list"
  shows "length b = length a \<Longrightarrow> map2 (-) (map ((*) (1 + 0)) a) (map ((*) 0) b) = a"
  by (induction b a rule: list_induct2) simp_all

lemma guided_zero:
  "shape u = shape c \<Longrightarrow> tsub (smul (1 + 0) c) (smul 0 u) = c"
proof (induction c arbitrary: u)
  case Nil
  then show ?case by (simp add: tsub_def smul_def)
next
  case (Cons a c)
  then obtain b u' where u: "u = b # u'" by (cases u) (auto simp: shape_def)
  have len: "length b = length a" and sh: "shape u' = shape c"
    using Cons.prems u by (simp_all add: shape_def)
  have "tsub (smul (1 + 0) c) (smul 0 u') = c" using Cons.IH [OF sh] .
  then show ?case
    using guided_zero_row [OF len] by (simp add: u tsub_def smul_def)
qed


text \<open>
  C2. At \<open>t_index = 0\<close> each of the six stochastic strategies returns the same result
  (or raises the same exception) whatever the noise generator and its state: on the same
  module, state and condition, and so the same network outputs, two invocations agree.
\<close>

theorem terminal_step_deterministic:
  "returned (ddpm randn_like1 self x waveform 0 rng1)
     = returned (ddpm randn_like2 self x waveform 0 rng2)
   \<and> returned (ddpm_x0 randn_like1 self x waveform 0 rng1)
     = returned (ddpm_x0 randn_like2 self x waveform 0 rng2)
   \<and> returned (ddim2ddpm randn_like1 self x waveform 0 rng1)
     = returned (ddim2ddpm randn_like2 self x waveform 0 rng2)
   \<and> returned (cfdg_ddpm_x0 randn_like1 self x waveform 0 rng1)
     = returned (cfdg_ddpm_x0 randn_like2 self x waveform 0 rng2)
   \<and> returned (generation_ddpm_x0 randn_like1 self x waveform 0 rng1)
     = returned (generation_ddpm_x0 randn_like2 self x waveform 0 rng2)
   \<and> returned (inpainting_ddpm_x0 randn_like1 self x waveform 0 rng1)
     = returned (inpainting_ddpm_x0 randn_like2 self x waveform 0 rng2)"
proof (intro conjI)
  show "returned (ddpm randn_like1 self x waveform 0 rng1)
     = returned (ddpm randn_like2 self x waveform 0 rng2)"
    by (simp add: returned_def ddpm_def and_then_def Let_def split: sum.splits prod.splits)
  show "returned (ddpm_x0 randn_like1 self x waveform 0 rng1)
     = returned (ddpm_x0 randn_like2 self x waveform 0 rng2)"
    by (simp add: returned_def ddpm_x0_def and_then_def Let_def split: sum.splits prod.splits)
  show "returned (ddim2ddpm randn_like1 self x waveform 0 rng1)
     = returned (ddim2ddpm randn_like2 self x waveform 0 rng2)"
    by (simp add: returned_def ddim2ddpm_def and_then_def Let_def split: sum.splits prod.splits)
  show "returned (cfdg_ddpm_x0 randn_like1 self x waveform 0 rng1)
     = returned (cfdg_ddpm_x0 randn_like2 self x waveform 0 rng2)"
    by (simp add: returned_def cfdg_ddpm_x0_def and_then_def Let_def split: sum.splits prod.splits)
  show "returned (generation_ddpm_x0 randn_like1 self x waveform 0 rng1)
     = returned (generation_ddpm_x0 randn_like2 self x waveform 0 rng2)"
    by (simp add: returned_def generation_ddpm_x0_def and_then_def Let_def split: sum.splits prod.splits)
  show "returned (inpainting_ddpm_x0 randn_like1 self x waveform 0 rng1)
     = returned (inpainting_ddpm_x0 randn_like2 self x waveform 0 rng2)"
    by (simp add: returned_def inpainting_ddpm_x0_def and_then_def Let_def split: sum.splits prod.splits)
qed


text \<open>
  Before the terminal step the draw does enter the result: on the example module two
  generator states give two different results at \<open>t_index = 1\<close>.
\<close>

lemma noise_enters_before_terminal_step:
  "returned (ddpm_x0 example_randn_like (example_module 0) [[4, 8]] [[0, 4]] 1 7)
     \<noteq> returned (ddpm_x0 example_randn_like (example_module 0) [[4, 8]] [[0, 4]] 1 8)"
  by (simp add: returned_def ddpm_x0_def and_then_def index_def Let_def example_network_def
        example_randn_like_def tadd_def tsub_def smul_def sdiv_def)

text \<open>
  C4. With guidance weight \<open>w = 0\<close>, and a network whose prediction on the zeroed
  condition has the shape of its conditional prediction, \<open>cfdg_ddpm_x0\<close> and \<open>ddpm_x0\<close>
  return the same result and leave the same generator state, for every state, condition,
  timestep and generator.
\<close>

theorem cfdg_weight_zero_is_ddpm_x0:
  assumes "sampling_w (hparams self) = 0"
    and "shape (fst (forward self x (zeros_like waveform) (replicate (length x) t_index) Sampling))
           = shape (fst (forward self x waveform (replicate (length x) t_index) Plain))"
  shows "cfdg_ddpm_x0 randn_like self x waveform t_index rng
           = ddpm_x0 randn_like self x waveform t_index rng"
proof -
  obtain c s where c: "forward self x waveform (replicate (length x) t_index) Plain = (c, s)"
    by (cases "forward self x waveform (replicate (length x) t_index) Plain")
  obtain u s' where u: "forward self x (zeros_like waveform) (replicate (length x) t_index) Sampling = (u, s')"
    by (cases "forward self x (zeros_like waveform) (replicate (length x) t_index) Sampling")
  have "shape u = shape c" using assms(2) c u by simp
  then have g: "tsub (smul (1 + 0) c) (smul 0 u) = c" by (rule guided_zero)
  show ?thesis
    unfolding cfdg_ddpm_x0_def ddpm_x0_def Let_def c u assms(1) prod.case g ..
qed

theorem cfdg_weight_zero_is_ddpm_x0_witness:
  "sampling_w (hparams (example_module 0)) = 0
   \<and> shape (fst (forward (example_module 0) [[4, 8]] (zeros_like [[0, 4]])
                   (replicate (length [[4, 8 :: real]]) 1) Sampling))
       = shape (fst (forward (example_module 0) [[4, 8]] [[0, 4]]
                   (replicate (length [[4, 8 :: real]]) 1) Plain))
   \<and> cfdg_ddpm_x0 example_randn_like (example_module 0) [[4, 8]] [[0, 4]] 1 7
       = ddpm_x0 example_randn_like (example_module 0) [[4, 8]] [[0, 4]] 1 7
   \<and> (\<exists>out. ddpm_x0 example_randn_like (example_module 0) [[4, 8]] [[0, 4]] 1 7 = Inr (out, 8))"
proof -
  have h1: "sampling_w (hparams (example_module 0)) = 0" by simp
  have h2: "shape (fst (forward (example_module 0) [[4, 8]] (zeros_like [[0, 4]])
                   (replicate (length [[4, 8 :: real]]) 1) Sampling))
       = shape (fst (forward (example_module 0) [[4, 8]] [[0, 4]]
                   (replicate (length [[4, 8 :: real]]) 1) Plain))"
    by (simp add: example_network_def shape_def smul_def tadd_def zeros_like_def)
  have eq: "cfdg_ddpm_x0 example_randn_like (example_module 0) [[4, 8]] [[0, 4]] 1 7
       = ddpm_x0 example_randn_like (example_module 0) [[4, 8]] [[0, 4]] 1 7"
    using cfdg_weight_zero_is_ddpm_x0 [where self = "example_module 0" and x = "[[4, 8]]"
        and waveform = "[[0, 4]]" and t_index = 1 and randn_like = example_randn_like
        and rng = 7, OF h1 h2] .
  have "\<exists>out. ddpm_x0 example_randn_like (example_module 0) [[4, 8]] [[0, 4]] 1 7 = Inr (out, 8)"
    by (simp add: ddpm_x0_def and_then_def index_def Let_def example_network_def
          example_randn_like_def split: prod.splits)
  with h1 h2 eq show ?thesis by (intro conjI)
qed

text \<open>
  C8. At \<open>t_index = 0\<close>, on a module whose tables have an entry 0, each of the six
  x0-parameterized strategies returns \<open>x0_pred / sqrt_alphas_cumprod[0]\<close>, where \<open>x0_pred\<close>
  is the network's prediction (the guided combination of two predictions for the
  guidance and inpainting variants, the prediction on the zeroed condition for the
  generation variant); the current state enters only through the network.
\<close>

theorem x0_terminal_mean:
  assumes "0 < length (sqrt_alphas_cumprod self)"
    and "0 < length (sqrt_one_minus_alphas_cumprod self)"
    and "0 < length (alphas self)"
  shows
    "ddpm_x0 randn_like self x waveform 0 rng
       = Inr ((sdiv (fst (forward self x waveform (replicate (length x) 0) Plain))
                    (sqrt_alphas_cumprod self ! 0),
               snd (forward self x waveform (replicate (length x) 0) Plain)), rng)
     \<and> ddim_x0 randn_like self x waveform 0 rng
       = Inr ((sdiv (fst (forward self x waveform (replicate (length x) 0) Plain))
                    (sqrt_alphas_cumprod self ! 0),
               snd (forward self x waveform (replicate (length x) 0) Plain)), rng)
     \<and> cfdg_ddpm_x0 randn_like self x waveform 0 rng
       = Inr ((sdiv (tsub (smul (1 + sampling_w (hparams self))
                             (fst (forward self x waveform (replicate (length x) 0) Plain)))
                          (smul (sampling_w (hparams self))
                             (fst (forward self x (zeros_like waveform)
                                     (replicate (length x) 0) Sampling))))
                    (sqrt_alphas_cumprod self ! 0),
               snd (forward self x waveform (replicate (length x) 0) Plain)), rng)
     \<and> cfdg_ddim_x0 randn_like self x waveform 0 rng
       = Inr ((sdiv (tsub (smul (1 + sampling_w (hparams self))
                             (fst (forward self x waveform (replicate (length x) 0) Plain)))
                          (smul (sampling_w (hparams self))
                             (fst (forward self x (zeros_like waveform)
                                     (replicate (length x) 0) Plain))))
                    (sqrt_alphas_cumprod self ! 0),
               snd (forward self x waveform (replicate (length x) 0) Plain)), rng)
     \<and> generation_ddpm_x0 randn_like self x waveform 0 rng
       = Inr ((sdiv (fst (forward self x (zeros_like waveform) (replicate (length x) 0) Sampling))
                    (sqrt_alphas_cumprod self ! 0),
               snd (forward self x (zeros_like waveform) (replicate (length x) 0) Sampling)), rng)
     \<and> inpainting_ddpm_x0 randn_like self x waveform 0 rng
       = Inr ((sdiv (tsub (smul (1 + sampling_w (hparams self))
                             (fst (forward self x waveform (replicate (length x) 0)
                                     (Inpainting (inpainting_t (hparams self))
                                                 (inpainting_f (hparams self))))))
                          (smul (sampling_w (hparams self))
                             (fst (forward self x (zeros_like waveform)
                                     (replicate (length x) 0) Sampling))))
                    (sqrt_alphas_cumprod self ! 0),
               snd (forward self x waveform (replicate (length x) 0)
                      (Inpainting (inpainting_t (hparams self))
                                  (inpainting_f (hparams self))))), rng)"
proof -
  have i: "index (sqrt_alphas_cumprod self) 0 = Inr (sqrt_alphas_cumprod self ! 0)"
    "index (sqrt_one_minus_alphas_cumprod self) 0 = Inr (sqrt_one_minus_alphas_cumprod self ! 0)"
    "index (alphas self) 0 = Inr (alphas self ! 0)"
    using assms by (simp_all add: index_def)
  show ?thesis
    by (intro conjI)
       (simp_all add: ddpm_x0_def ddim_x0_def cfdg_ddpm_x0_def cfdg_ddim_x0_def
          generation_ddpm_x0_def inpainting_ddpm_x0_def i and_then_def Let_def
          split: prod.splits)
qed

theorem x0_terminal_mean_witness:
  "0 < length (sqrt_alphas_cumprod (example_module 2))
   \<and> 0 < length (sqrt_one_minus_alphas_cumprod (example_module 2))
   \<and> 0 < length (alphas (example_module 2))
   \<and> ddpm_x0 example_randn_like (example_module 2) [[4, 8]] [[0, 4]] 0 7
       = Inr (([[5, 15]], ()), 7)
   \<and> cfdg_ddpm_x0 example_randn_like (example_module 2) [[4, 8]] [[0, 4]] 0 7
       = Inr (([[10, 35]], ()), 7)"
  using x0_terminal_mean [where self = "example_module 2" and randn_like = example_randn_like
      and x = "[[4, 8]]" and waveform = "[[0, 4]]" and rng = 7]
  by (simp add: example_network_def sdiv_def tsub_def tadd_def smul_def zeros_like_def)

section \<open>Properties of construction and losses\<close>


text \<open>
  Construction on a timestep count below 1: a count below \<open>-1\<close> fails in
  \<open>torch.linspace\<close>, the count \<open>-1\<close> fails at \<open>alphas_cumprod[0]\<close> inside
  \<open>cosine_beta_schedule\<close>, and the count 0 fails in \<open>LatentRollDiffusion.__init__\<close> only.
\<close>

lemma init_schedule_nonpositive:
  "T < - 1 \<Longrightarrow> init_schedule cls T = Inl RuntimeError"
  "init_schedule cls (- 1) = Inl IndexError"
  "init_schedule LatentRollDiffusion 0 = Inl IndexError"
  "init_schedule SpecRollDiffusion 0 = Inr (build_schedule 0)"
proof -
  have e: "cumprod (alphas (build_schedule 0)) = []"
    by (simp add: build_schedule_def Let_def alphas_of_def cumprod_def
          cosine_beta_schedule_def cosine_beta_schedule_s_def cosine_alphas_cumprod_def
          linspace_def)
  show "T < - 1 \<Longrightarrow> init_schedule cls T = Inl RuntimeError"
    by (simp add: init_schedule_def)
  show "init_schedule cls (- 1) = Inl IndexError" by (simp add: init_schedule_def)
  show "init_schedule LatentRollDiffusion 0 = Inl IndexError"
    by (simp add: init_schedule_def Let_def and_then_def e index_def)
  show "init_schedule SpecRollDiffusion 0 = Inr (build_schedule 0)"
    by (simp add: init_schedule_def Let_def)
qed





section \<open>Properties of the sampling loops\<close>

lemma reversed_range_Suc: "reversed_range (Suc n) = int n # reversed_range n"
  by (simp add: reversed_range_def)

lemma length_reversed_range [simp]: "length (reversed_range n) = n"
  by (simp add: reversed_range_def)

lemma set_reversed_range: "set (reversed_range n) = {t. 0 \<le> t \<and> t < int n}"
proof -
  have "set (reversed_range n) = int ` {0..<n}" by (simp add: reversed_range_def)
  also have "\<dots> = {t. 0 \<le> t \<and> t < int n}"
  proof (rule set_eqI)
    fix t show "t \<in> int ` {0..<n} \<longleftrightarrow> t \<in> {t. 0 \<le> t \<and> t < int n}"
    proof
      assume "t \<in> int ` {0..<n}" then show "t \<in> {t. 0 \<le> t \<and> t < int n}" by auto
    next
      assume "t \<in> {t. 0 \<le> t \<and> t < int n}"
      then have "t = int (nat t)" "nat t \<in> {0..<n}" by auto
      then show "t \<in> int ` {0..<n}" by (rule image_eqI)
    qed
  qed
  finally show ?thesis .
qed

lemma reversed_range_decreasing: "sorted_wrt (\<lambda>a b. b < a) (reversed_range n)"
proof (induction n)
  case 0
  then show ?case by (simp add: reversed_range_def)
next
  case (Suc n)
  then show ?case by (simp add: reversed_range_Suc set_reversed_range)
qed

lemma chained_step:
  assumes ch: "chained rd cond cs trace"
    and x: "x = fst (last trace)"
    and r: "rd x cond t g = Inr ((x', s), g')"
  shows "chained rd cond (cs @ [(x, t, g)]) (trace @ [(x', t)])"
proof -
  have len: "length trace = Suc (length cs)" using ch by (simp add: chained_def)
  have old: "\<forall>i < length cs. case cs ! i of (y, u, h) \<Rightarrow>
           y = fst (trace ! i) \<and> snd (trace ! Suc i) = u
           \<and> map_sum id fst (returned (rd y cond u h)) = Inr (fst (trace ! Suc i))"
    using ch by (simp add: chained_def list_all_iff)
  have "trace \<noteq> []" using len by auto
  then have lst: "last trace = trace ! length cs"
    using len by (simp add: last_conv_nth)
  have "\<forall>i < Suc (length cs). case (cs @ [(x, t, g)]) ! i of (y, u, h) \<Rightarrow>
           y = fst ((trace @ [(x', t)]) ! i) \<and> snd ((trace @ [(x', t)]) ! Suc i) = u
           \<and> map_sum id fst (returned (rd y cond u h)) = Inr (fst ((trace @ [(x', t)]) ! Suc i))"
  proof (intro allI impI)
    fix i assume i: "i < Suc (length cs)"
    show "case (cs @ [(x, t, g)]) ! i of (y, u, h) \<Rightarrow>
           y = fst ((trace @ [(x', t)]) ! i) \<and> snd ((trace @ [(x', t)]) ! Suc i) = u
           \<and> map_sum id fst (returned (rd y cond u h)) = Inr (fst ((trace @ [(x', t)]) ! Suc i))"
    proof (cases "i < length cs")
      case True
      then show ?thesis using old len by (simp add: nth_append)
    next
      case False
      then have "i = length cs" using i by simp
      then show ?thesis using len x lst r by (simp add: nth_append returned_def)
    qed
  qed
  then show ?thesis using len by (simp add: chained_def list_all_iff del: upt_Suc)
qed

lemma sampling_loop_trace:
  assumes "\<forall>x g. \<forall>t \<in> set ts. \<exists>out. rd x cond t g = Inr out"
    and "chained rd cond (calls st) (noise_list st)"
    and "noise st = fst (last (noise_list st))"
  shows "\<exists>st'. sampling_loop rd cond ts st = Inr st'
           \<and> map (\<lambda>c. fst (snd c)) (calls st') = map (\<lambda>c. fst (snd c)) (calls st) @ ts
           \<and> map snd (noise_list st') = map snd (noise_list st) @ ts
           \<and> chained rd cond (calls st') (noise_list st')
           \<and> (ts \<noteq> [] \<longrightarrow> side st' \<noteq> None)"
  using assms
proof (induction ts arbitrary: st)
  case Nil
  then show ?case by simp
next
  case (Cons t ts)
  obtain out where "rd (noise st) cond t (generator st) = Inr out"
    using Cons.prems(1) by fastforce
  then obtain x' s g' where r: "rd (noise st) cond t (generator st) = Inr ((x', s), g')"
    by (cases out) auto
  let ?st = "st\<lparr> noise := x', noise_list := noise_list st @ [(x', t)], side := Some s,
                 calls := calls st @ [(noise st, t, generator st)], generator := g' \<rparr>"
  have step: "sampling_loop rd cond (t # ts) st = sampling_loop rd cond ts ?st"
    by (simp add: r)
  have ok: "\<forall>x g. \<forall>t \<in> set ts. \<exists>out. rd x cond t g = Inr out"
    using Cons.prems(1) by simp
  have ch: "chained rd cond (calls ?st) (noise_list ?st)"
    using chained_step [OF Cons.prems(2) Cons.prems(3) r] by simp
  have nz: "noise ?st = fst (last (noise_list ?st))" by simp
  obtain st' where st': "sampling_loop rd cond ts ?st = Inr st'"
      "map (\<lambda>c. fst (snd c)) (calls st') = map (\<lambda>c. fst (snd c)) (calls ?st) @ ts"
      "map snd (noise_list st') = map snd (noise_list ?st) @ ts"
      "chained rd cond (calls st') (noise_list st')"
      "ts \<noteq> [] \<longrightarrow> side st' \<noteq> None"
    using Cons.IH [OF ok ch nz] by blast
  have sd: "side st' \<noteq> None"
  proof (cases ts)
    case Nil
    then show ?thesis using st'(1) by auto
  next
    case (Cons a list)
    then show ?thesis using st'(5) by simp
  qed
  show ?case using step st' sd by simp
qed

lemma index_prev_in_range:
  "0 \<le> t \<Longrightarrow> t \<noteq> 0 \<Longrightarrow> t < int (length xs) \<Longrightarrow> index xs (t - 1) = Inr (xs ! nat (t - 1))"
  by (simp add: index_def)

lemma strategy_returns:
  assumes len: "length (betas self) = T" "length (alphas self) = T"
      "length (sqrt_recip_alphas self) = T" "length (sqrt_alphas_cumprod self) = T"
      "length (sqrt_one_minus_alphas_cumprod self) = T" "length (posterior_variance self) = T"
    and t: "0 \<le> t" "t < int T"
  shows "\<exists>out. strategy v randn_like self x c t g = Inr out"
proof -
  have i: "\<And>xs :: real list. length xs = T \<Longrightarrow> index xs t = Inr (xs ! nat t)"
    using t by (simp add: index_in_range)
  have p: "\<And>xs :: real list. length xs = T \<Longrightarrow> t \<noteq> 0 \<Longrightarrow> index xs (t - 1) = Inr (xs ! nat (t - 1))"
    using t by (simp add: index_prev_in_range)
  have z: "\<And>xs :: real list. length xs = T \<Longrightarrow> index xs 0 = Inr (xs ! 0)"
    using t by (simp add: index_def)
  note look = i [OF len(1)] i [OF len(2)] i [OF len(3)] i [OF len(4)] i [OF len(5)] i [OF len(6)]
    p [OF len(4)] p [OF len(5)]
    z [OF len(1)] z [OF len(2)] z [OF len(3)] z [OF len(4)] z [OF len(5)] z [OF len(6)]
  show ?thesis
  proof (cases v)
    case Ddpm
    then show ?thesis by (simp add: ddpm_def and_then_def Let_def look split: prod.splits)
  next
    case Ddpm_x0
    then show ?thesis by (simp add: ddpm_x0_def and_then_def Let_def look split: prod.splits)
  next
    case Ddim_x0
    then show ?thesis by (simp add: ddim_x0_def and_then_def Let_def look split: prod.splits)
  next
    case Ddim
    then show ?thesis by (simp add: ddim_def and_then_def Let_def look split: prod.splits)
  next
    case Ddim2ddpm
    then show ?thesis by (simp add: ddim2ddpm_def and_then_def Let_def look split: prod.splits)
  next
    case Cfdg_ddpm_x0
    then show ?thesis by (simp add: cfdg_ddpm_x0_def and_then_def Let_def look split: prod.splits)
  next
    case Generation_ddpm_x0
    then show ?thesis
      by (simp add: generation_ddpm_x0_def and_then_def Let_def look split: prod.splits)
  next
    case Inpainting_ddpm_x0
    then show ?thesis
      by (simp add: inpainting_ddpm_x0_def and_then_def Let_def look split: prod.splits)
  next
    case Cfdg_ddim_x0
    then show ?thesis by (simp add: cfdg_ddim_x0_def and_then_def Let_def look split: prod.splits)
  qed
qed

lemma build_schedule_lengths:
  "length (betas (build_schedule T)) = T"
  "length (alphas (build_schedule T)) = T"
  "length (sqrt_recip_alphas (build_schedule T)) = T"
  "length (sqrt_alphas_cumprod (build_schedule T)) = T"
  "length (sqrt_one_minus_alphas_cumprod (build_schedule T)) = T"
  "length (posterior_variance (build_schedule T)) = T"
  by (simp_all add: build_schedule_def Let_def alphas_of_def cumprod_def
        length_posterior_variance [unfolded build_schedule_def Let_def])

lemma sampling_loop_keeps_trace:
  "sampling_loop rd cond ts st = Inr st' \<Longrightarrow> \<exists>ys. noise_list st' = noise_list st @ ys"
proof (induction ts arbitrary: st)
  case Nil
  then show ?case by simp
next
  case (Cons t ts)
  then obtain x' s g' where r: "rd (noise st) cond t (generator st) = Inr ((x', s), g')"
    by (auto split: sum.splits prod.splits)
  let ?st = "st\<lparr> noise := x', noise_list := noise_list st @ [(x', t)], side := Some s,
                 calls := calls st @ [(noise st, t, generator st)], generator := g' \<rparr>"
  have "sampling_loop rd cond ts ?st = Inr st'" using Cons.prems by (simp add: r)
  then obtain ys where "noise_list st' = noise_list ?st @ ys" using Cons.IH by blast
  then show ?case by simp
qed

lemma sampling_loop_keeps_first:
  assumes "sampling_loop rd cond ts st = Inr st'" "noise_list st = [e]"
  shows "hd (noise_list st') = e"
  using sampling_loop_keeps_trace [OF assms(1)] assms(2) by auto

lemma latent_sampling_run_trace:
  assumes "\<forall>x c t g. 0 \<le> t \<and> t < timesteps (hparams self) \<longrightarrow> (\<exists>out. rd x c t g = Inr out)"
  shows "\<exists>st. latent_sampling_run randn_like normalize' self rd b seed = Inr st
           \<and> map (\<lambda>c. fst (snd c)) (calls st) = reversed_range (nat (timesteps (hparams self)))
           \<and> map snd (noise_list st)
               = timesteps (hparams self) # reversed_range (nat (timesteps (hparams self)))
           \<and> chained rd (if debug (hparams self) then normalize' (frame b) else dac_latents b)
               (calls st) (noise_list st)
           \<and> hd (noise_list st)
               = (fst (randn_like (normalize' (frame b)) seed), timesteps (hparams self))"
proof -
  let ?T = "timesteps (hparams self)"
  let ?cond = "if debug (hparams self) then normalize' (frame b) else dac_latents b"
  obtain noise0 rng1 where d: "randn_like (normalize' (frame b)) seed = (noise0, rng1)"
    by (cases "randn_like (normalize' (frame b)) seed")
  let ?st = "\<lparr> noise = noise0, noise_list = [(noise0, ?T)], side = None,
               calls = [], generator = rng1 \<rparr>"
  have ok: "\<forall>x g. \<forall>t \<in> set (reversed_range (nat ?T)). \<exists>out. rd x ?cond t g = Inr out"
  proof (intro allI ballI)
    fix x g t assume "t \<in> set (reversed_range (nat ?T))"
    then have "0 \<le> t \<and> t < ?T" by (auto simp: set_reversed_range split: if_splits)
    then show "\<exists>out. rd x ?cond t g = Inr out" using assms by blast
  qed
  have ch: "chained rd ?cond (calls ?st) (noise_list ?st)" by (simp add: chained_def)
  have nz: "noise ?st = fst (last (noise_list ?st))" by simp
  have "\<exists>st'. sampling_loop rd ?cond (reversed_range (nat ?T)) ?st = Inr st'
           \<and> map (\<lambda>c. fst (snd c)) (calls st') = reversed_range (nat ?T)
           \<and> map snd (noise_list st') = ?T # reversed_range (nat ?T)
           \<and> chained rd ?cond (calls st') (noise_list st')
           \<and> (reversed_range (nat ?T) \<noteq> [] \<longrightarrow> side st' \<noteq> None)"
    using sampling_loop_trace [OF ok ch nz] by simp
  then obtain st' where st': "sampling_loop rd ?cond (reversed_range (nat ?T)) ?st = Inr st'
           \<and> map (\<lambda>c. fst (snd c)) (calls st') = reversed_range (nat ?T)
           \<and> map snd (noise_list st') = ?T # reversed_range (nat ?T)
           \<and> chained rd ?cond (calls st') (noise_list st')
           \<and> (reversed_range (nat ?T) \<noteq> [] \<longrightarrow> side st' \<noteq> None)" ..
  have run: "latent_sampling_run randn_like normalize' self rd b seed = Inr st'"
    using st' [THEN conjunct1] by (simp add: latent_sampling_run_def Let_def d)
  have first: "hd (noise_list st') = (fst (randn_like (normalize' (frame b)) seed), ?T)"
    using sampling_loop_keeps_first [OF st' [THEN conjunct1]] by (simp add: d)
  show ?thesis
    using run st' [THEN conjunct2, THEN conjunct1]
      st' [THEN conjunct2, THEN conjunct2, THEN conjunct1]
      st' [THEN conjunct2, THEN conjunct2, THEN conjunct2, THEN conjunct1] first
    by (intro exI [of _ st'] conjI)
qed

lemma spec_sampling_run_trace:
  assumes "\<forall>x c t g. 0 \<le> t \<and> t < 175 \<longrightarrow> (\<exists>out. rd x c t g = Inr out)"
    and "175 \<le> length (sqrt_alphas_cumprod self)"
    and "175 \<le> length (sqrt_one_minus_alphas_cumprod self)"
  shows "\<exists>st x_t. spec_sampling_run randn_like normalize' self rd b seed = Inr st
           \<and> map (\<lambda>c. fst (snd c)) (calls st) = reversed_range 175
           \<and> map snd (noise_list st) = 175 # reversed_range 175
           \<and> chained rd (if debug (hparams self) then normalize' (frame b) else audio b)
               (calls st) (noise_list st)
           \<and> side st \<noteq> None
           \<and> q_sample (normalize' (frame b)) (replicate (length (frame b)) 174)
                (sqrt_alphas_cumprod self) (sqrt_one_minus_alphas_cumprod self)
                (Some (fst (randn_like (normalize' (frame b)) seed))) = Inr x_t
           \<and> hd (noise_list st) = (x_t, 175)"
proof -
  let ?cond = "if debug (hparams self) then normalize' (frame b) else audio b"
  obtain noise0 rng1 where d: "randn_like (normalize' (frame b)) seed = (noise0, rng1)"
    by (cases "randn_like (normalize' (frame b)) seed")
  let ?t = "replicate (length (frame b)) (174::int)"
  have g1: "gather (sqrt_alphas_cumprod self) ?t
             = Inr (map (\<lambda>i. sqrt_alphas_cumprod self ! nat i) ?t)"
    using assms(2) by (intro gather_in_range) auto
  have g2: "gather (sqrt_one_minus_alphas_cumprod self) ?t
             = Inr (map (\<lambda>i. sqrt_one_minus_alphas_cumprod self ! nat i) ?t)"
    using assms(3) by (intro gather_in_range) auto
  obtain x_t where q: "q_sample (normalize' (frame b)) ?t (sqrt_alphas_cumprod self)
      (sqrt_one_minus_alphas_cumprod self) (Some noise0) = Inr x_t"
    by (simp add: q_sample_def g1 g2)
  let ?st = "\<lparr> noise = x_t, noise_list = [(x_t, 175)], side = None,
               calls = [], generator = rng1 \<rparr>"
  have ok: "\<forall>x g. \<forall>t \<in> set (reversed_range 175). \<exists>out. rd x ?cond t g = Inr out"
    using assms(1) by (simp add: set_reversed_range)
  have ch: "chained rd ?cond (calls ?st) (noise_list ?st)" by (simp add: chained_def)
  have nz: "noise ?st = fst (last (noise_list ?st))" by simp
  have ne: "reversed_range 175 \<noteq> []"
    using length_reversed_range [of 175] by (metis length_0_conv zero_neq_numeral)
  have "\<exists>st'. sampling_loop rd ?cond (reversed_range 175) ?st = Inr st'
           \<and> map (\<lambda>c. fst (snd c)) (calls st') = reversed_range 175
           \<and> map snd (noise_list st') = 175 # reversed_range 175
           \<and> chained rd ?cond (calls st') (noise_list st')
           \<and> (reversed_range 175 \<noteq> [] \<longrightarrow> side st' \<noteq> None)"
    using sampling_loop_trace [OF ok ch nz] by simp
  then obtain st' where st': "sampling_loop rd ?cond (reversed_range 175) ?st = Inr st'
           \<and> map (\<lambda>c. fst (snd c)) (calls st') = reversed_range 175
           \<and> map snd (noise_list st') = 175 # reversed_range 175
           \<and> chained rd ?cond (calls st') (noise_list st')
           \<and> (reversed_range 175 \<noteq> [] \<longrightarrow> side st' \<noteq> None)" ..
  have run: "spec_sampling_run randn_like normalize' self rd b seed = Inr st'"
    using st' [THEN conjunct1] q
    by (simp add: spec_sampling_run_def Let_def d and_then_def)
  have sd: "side st' \<noteq> None"
    using st' [THEN conjunct2, THEN conjunct2, THEN conjunct2, THEN conjunct2] ne by (rule mp)
  have q': "q_sample (normalize' (frame b)) (replicate (length (frame b)) 174)
                (sqrt_alphas_cumprod self) (sqrt_one_minus_alphas_cumprod self)
                (Some (fst (randn_like (normalize' (frame b)) seed))) = Inr x_t"
    using q by (simp add: d)
  have first: "hd (noise_list st') = (x_t, 175)"
    using sampling_loop_keeps_first [OF st' [THEN conjunct1]] by simp
  show ?thesis
    using run st' [THEN conjunct2, THEN conjunct1]
      st' [THEN conjunct2, THEN conjunct2, THEN conjunct1]
      st' [THEN conjunct2, THEN conjunct2, THEN conjunct2, THEN conjunct1] sd q' first
    by (intro exI [of _ st'] exI [of _ x_t] conjI)
qed

lemma example_module_200_simps [simp]:
  "betas example_module_200 = betas (build_schedule 200)"
  "alphas example_module_200 = alphas (build_schedule 200)"
  "sqrt_recip_alphas example_module_200 = sqrt_recip_alphas (build_schedule 200)"
  "sqrt_alphas_cumprod example_module_200 = sqrt_alphas_cumprod (build_schedule 200)"
  "sqrt_one_minus_alphas_cumprod example_module_200
     = sqrt_one_minus_alphas_cumprod (build_schedule 200)"
  "posterior_variance example_module_200 = posterior_variance (build_schedule 200)"
  "forward example_module_200 = example_network"
  "timesteps (hparams example_module_200) = 200"
  "debug (hparams example_module_200) = False"
  by (simp_all add: example_module_200_def schedule.defs module.defs)

lemma example_module_200_returns:
  assumes "0 \<le> t" "t < 200"
  shows "\<exists>out. strategy v randn_like example_module_200 x c t g = Inr out"
  by (rule strategy_returns [where T = 200])
     (simp_all add: build_schedule_lengths assms)

text \<open>
  \<open>LatentRollDiffusion.sampling\<close> does what C1 says, for every timestep count \<open>T \<ge> 0\<close>
  and every strategy that returns on the timesteps \<open>0 \<le> t < T\<close>: it starts from the
  drawn noise recorded with \<open>t = T\<close>, invokes the strategy exactly \<open>T\<close> times, on
  \<open>t_index = T-1, ..., 0\<close> in this order, each call on the state the previous one
  returned, and returns a trace of \<open>T + 1\<close> entries whose \<open>t\<close> values are
  \<open>T, T-1, ..., 0\<close>. The list \<open>reversed_range n\<close> is strictly decreasing and holds every
  integer of \<open>[0, n)\<close>.
\<close>

lemma latent_sampling_invokes_strategy_per_timestep:
  assumes "0 \<le> timesteps (hparams self)"
    and "\<forall>x c t g. 0 \<le> t \<and> t < timesteps (hparams self) \<longrightarrow> (\<exists>out. rd x c t g = Inr out)"
  shows "\<exists>st. latent_sampling_run randn_like normalize' self rd b seed = Inr st
           \<and> latent_sampling randn_like normalize' self rd b seed
               = Inr (noise_list st, dac_latents b)
           \<and> int (length (calls st)) = timesteps (hparams self)
           \<and> map (\<lambda>c. fst (snd c)) (calls st) = reversed_range (nat (timesteps (hparams self)))
           \<and> chained rd (if debug (hparams self) then normalize' (frame b) else dac_latents b)
               (calls st) (noise_list st)
           \<and> int (length (noise_list st)) = timesteps (hparams self) + 1
           \<and> map snd (noise_list st)
               = timesteps (hparams self) # reversed_range (nat (timesteps (hparams self)))
           \<and> hd (noise_list st)
               = (fst (randn_like (normalize' (frame b)) seed), timesteps (hparams self))
           \<and> sorted_wrt (\<lambda>a b. b < a) (reversed_range (nat (timesteps (hparams self))))
           \<and> set (reversed_range (nat (timesteps (hparams self))))
               = {t. 0 \<le> t \<and> t < timesteps (hparams self)}"
proof -
  let ?T = "timesteps (hparams self)"
  obtain st where st: "latent_sampling_run randn_like normalize' self rd b seed = Inr st
           \<and> map (\<lambda>c. fst (snd c)) (calls st) = reversed_range (nat ?T)
           \<and> map snd (noise_list st) = ?T # reversed_range (nat ?T)
           \<and> chained rd (if debug (hparams self) then normalize' (frame b) else dac_latents b)
               (calls st) (noise_list st)
           \<and> hd (noise_list st) = (fst (randn_like (normalize' (frame b)) seed), ?T)"
    using latent_sampling_run_trace [OF assms(2), where randn_like = randn_like
        and normalize' = normalize' and b = b and seed = seed] ..
  note run = st [THEN conjunct1]
  note cs = st [THEN conjunct2, THEN conjunct1]
  note tr = st [THEN conjunct2, THEN conjunct2, THEN conjunct1]
  note ch = st [THEN conjunct2, THEN conjunct2, THEN conjunct2, THEN conjunct1]
  note first = st [THEN conjunct2, THEN conjunct2, THEN conjunct2, THEN conjunct2]
  have lc: "int (length (calls st)) = ?T"
    using arg_cong [OF cs, of length] assms(1) by simp
  have lt: "int (length (noise_list st)) = ?T + 1"
    using arg_cong [OF tr, of length] assms(1) by simp
  have res: "latent_sampling randn_like normalize' self rd b seed
                 = Inr (noise_list st, dac_latents b)"
    by (simp add: latent_sampling_def run and_then_def)
  have dec: "sorted_wrt (\<lambda>a b. b < a) (reversed_range (nat ?T))"
    by (rule reversed_range_decreasing)
  have all: "set (reversed_range (nat ?T)) = {t. 0 \<le> t \<and> t < ?T}"
    using assms(1) by (simp add: set_reversed_range)
  show ?thesis
    using run res lc cs ch lt tr first dec all by (intro exI [of _ st] conjI)
qed

text \<open>
  \<open>SpecRollDiffusion.sampling\<close> runs the horizon \<open>fixed_t = 175\<close> of its DEBUG block
  whatever the timestep count is: when the tables have at least 175 entries and the
  strategy returns on \<open>0 \<le> t < 175\<close>, it starts from \<open>q_sample\<close> of the normalized roll at
  timestep 174, recorded with \<open>t = 175\<close>, invokes the strategy exactly 175 times, on
  \<open>t_index = 174, ..., 0\<close>, and returns a trace of 176 entries.
\<close>

lemma spec_sampling_runs_fixed_horizon:
  assumes "\<forall>x c t g. 0 \<le> t \<and> t < 175 \<longrightarrow> (\<exists>out. rd x c t g = Inr out)"
    and "175 \<le> length (sqrt_alphas_cumprod self)"
    and "175 \<le> length (sqrt_one_minus_alphas_cumprod self)"
  shows "\<exists>st spec x_t. spec_sampling_run randn_like normalize' self rd b seed = Inr st
           \<and> spec_sampling randn_like normalize' self rd b seed = Inr (noise_list st, spec)
           \<and> length (calls st) = 175
           \<and> map (\<lambda>c. fst (snd c)) (calls st) = reversed_range 175
           \<and> chained rd (if debug (hparams self) then normalize' (frame b) else audio b)
               (calls st) (noise_list st)
           \<and> length (noise_list st) = 176
           \<and> map snd (noise_list st) = 175 # reversed_range 175
           \<and> q_sample (normalize' (frame b)) (replicate (length (frame b)) 174)
                (sqrt_alphas_cumprod self) (sqrt_one_minus_alphas_cumprod self)
                (Some (fst (randn_like (normalize' (frame b)) seed))) = Inr x_t
           \<and> hd (noise_list st) = (x_t, 175)"
proof -
  obtain st x_t where st: "spec_sampling_run randn_like normalize' self rd b seed = Inr st
           \<and> map (\<lambda>c. fst (snd c)) (calls st) = reversed_range 175
           \<and> map snd (noise_list st) = 175 # reversed_range 175
           \<and> chained rd (if debug (hparams self) then normalize' (frame b) else audio b)
               (calls st) (noise_list st)
           \<and> side st \<noteq> None
           \<and> q_sample (normalize' (frame b)) (replicate (length (frame b)) 174)
                (sqrt_alphas_cumprod self) (sqrt_one_minus_alphas_cumprod self)
                (Some (fst (randn_like (normalize' (frame b)) seed))) = Inr x_t
           \<and> hd (noise_list st) = (x_t, 175)"
    using spec_sampling_run_trace [OF assms, where randn_like = randn_like
        and normalize' = normalize' and b = b and seed = seed] by (elim exE)
  note run = st [THEN conjunct1]
  note cs = st [THEN conjunct2, THEN conjunct1]
  note tr = st [THEN conjunct2, THEN conjunct2, THEN conjunct1]
  note ch = st [THEN conjunct2, THEN conjunct2, THEN conjunct2, THEN conjunct1]
  note sd = st [THEN conjunct2, THEN conjunct2, THEN conjunct2, THEN conjunct2, THEN conjunct1]
  note qs = st [THEN conjunct2, THEN conjunct2, THEN conjunct2, THEN conjunct2, THEN conjunct2,
      THEN conjunct1]
  note first = st [THEN conjunct2, THEN conjunct2, THEN conjunct2, THEN conjunct2,
      THEN conjunct2, THEN conjunct2]
  obtain spec where spec: "side st = Some spec" using sd by (cases "side st") auto
  have lc: "length (calls st) = 175" using arg_cong [OF cs, of length] by simp
  have lt: "length (noise_list st) = 176" using arg_cong [OF tr, of length] by simp
  have res: "spec_sampling randn_like normalize' self rd b seed = Inr (noise_list st, spec)"
    by (simp add: spec_sampling_def run and_then_def spec)
  show ?thesis
    using run res lc cs ch lt tr qs first
    by (intro exI [of _ st] exI [of _ spec] exI [of _ x_t] conjI)
qed

text \<open>
  C1. The claim holds of \<open>LatentRollDiffusion.sampling\<close> and fails on
  \<open>SpecRollDiffusion.sampling\<close>. On a module with 200 timesteps, whose sibling
  \<open>LatentRollDiffusion.sampling\<close> returns the 201 entries the claim describes,
  \<open>SpecRollDiffusion.sampling\<close> invokes the strategy 175 times and returns a trace of 176
  entries that starts at \<open>t = 175\<close>; on a module with 2 timesteps it raises IndexError
  in \<open>q_sample\<close> before the first step.
\<close>

theorem spec_sampling_ignores_timesteps:
  "timesteps (hparams example_module_200) = 200
   \<and> map_sum id (length \<circ> calls)
        (spec_sampling_run example_randn_like id example_module_200
           (ddim example_randn_like example_module_200) example_batch 0) = Inr 175
   \<and> map_sum id (length \<circ> fst)
        (spec_sampling example_randn_like id example_module_200
           (ddim example_randn_like example_module_200) example_batch 0) = Inr 176
   \<and> map_sum id (snd \<circ> hd \<circ> fst)
        (spec_sampling example_randn_like id example_module_200
           (ddim example_randn_like example_module_200) example_batch 0) = Inr 175
   \<and> map_sum id (length \<circ> fst)
        (latent_sampling example_randn_like id example_module_200
           (ddim example_randn_like example_module_200) example_batch 0) = Inr 201
   \<and> timesteps (hparams (example_module 0)) = 2
   \<and> spec_sampling example_randn_like id (example_module 0)
        (ddim example_randn_like (example_module 0)) example_batch 0 = Inl IndexError"
proof -
  let ?rd = "ddim example_randn_like example_module_200"
  have ok175: "\<forall>x c t g. 0 \<le> t \<and> t < 175 \<longrightarrow> (\<exists>out. ?rd x c t g = Inr out)"
    using example_module_200_returns [where v = Ddim and randn_like = example_randn_like]
    by simp
  have ok200: "\<forall>x c t g. 0 \<le> t \<and> t < timesteps (hparams example_module_200)
                 \<longrightarrow> (\<exists>out. ?rd x c t g = Inr out)"
    using example_module_200_returns [where v = Ddim and randn_like = example_randn_like]
    by simp
  have l1: "175 \<le> length (sqrt_alphas_cumprod example_module_200)"
    and l2: "175 \<le> length (sqrt_one_minus_alphas_cumprod example_module_200)"
    by (simp_all add: build_schedule_lengths)
  obtain st x_t where st: "spec_sampling_run example_randn_like id example_module_200 ?rd
        example_batch 0 = Inr st
      \<and> map (\<lambda>c. fst (snd c)) (calls st) = reversed_range 175
      \<and> map snd (noise_list st) = 175 # reversed_range 175
      \<and> chained ?rd (if debug (hparams example_module_200) then id (frame example_batch)
                      else audio example_batch) (calls st) (noise_list st)
      \<and> side st \<noteq> None
      \<and> q_sample (id (frame example_batch)) (replicate (length (frame example_batch)) 174)
           (sqrt_alphas_cumprod example_module_200)
           (sqrt_one_minus_alphas_cumprod example_module_200)
           (Some (fst (example_randn_like (id (frame example_batch)) 0))) = Inr x_t
      \<and> hd (noise_list st) = (x_t, 175)"
    using spec_sampling_run_trace [OF ok175 l1 l2, where randn_like = example_randn_like
        and normalize' = id and b = example_batch and seed = 0] by (elim exE)
  note run = st [THEN conjunct1]
  note cs = st [THEN conjunct2, THEN conjunct1]
  note tr = st [THEN conjunct2, THEN conjunct2, THEN conjunct1]
  note sd = st [THEN conjunct2, THEN conjunct2, THEN conjunct2, THEN conjunct2, THEN conjunct1]
  obtain spec where spec: "side st = Some spec" using sd by (cases "side st") auto
  have lc: "length (calls st) = 175" using arg_cong [OF cs, of length] by simp
  have lt: "length (noise_list st) = 176" using arg_cong [OF tr, of length] by simp
  have hd: "snd (hd (noise_list st)) = 175"
    using arg_cong [OF tr, of hd] lt by (cases "noise_list st") simp_all
  have res: "spec_sampling example_randn_like id example_module_200 ?rd example_batch 0
      = Inr (noise_list st, spec)"
    by (simp add: spec_sampling_def run and_then_def spec)
  obtain lst where lst: "latent_sampling_run example_randn_like id example_module_200 ?rd
        example_batch 0 = Inr lst
      \<and> map (\<lambda>c. fst (snd c)) (calls lst)
          = reversed_range (nat (timesteps (hparams example_module_200)))
      \<and> map snd (noise_list lst) = timesteps (hparams example_module_200)
            # reversed_range (nat (timesteps (hparams example_module_200)))
      \<and> chained ?rd (if debug (hparams example_module_200) then id (frame example_batch)
                      else dac_latents example_batch) (calls lst) (noise_list lst)
      \<and> hd (noise_list lst)
          = (fst (example_randn_like (id (frame example_batch)) 0),
             timesteps (hparams example_module_200))"
    using latent_sampling_run_trace [OF ok200, where randn_like = example_randn_like
        and normalize' = id and b = example_batch and seed = 0] ..
  have ll: "length (noise_list lst) = 201"
    using arg_cong [OF lst [THEN conjunct2, THEN conjunct2, THEN conjunct1], of length] by simp
  have lres: "latent_sampling example_randn_like id example_module_200 ?rd example_batch 0
      = Inr (noise_list lst, dac_latents example_batch)"
    by (simp add: latent_sampling_def lst [THEN conjunct1] and_then_def)
  have small: "spec_sampling example_randn_like id (example_module 0)
        (ddim example_randn_like (example_module 0)) example_batch 0 = Inl IndexError"
    by (simp add: spec_sampling_def spec_sampling_run_def Let_def and_then_def q_sample_def
          index_def example_batch_def example_randn_like_def)
  show ?thesis using lc lt hd ll small by (simp add: run res lres)
qed

text \<open>
  The loop of \<open>LatentRollDiffusion.sampling\<close> on the two-timestep example module under
  \<open>ddim\<close>: the trace records \<open>t = 2, 1, 0\<close>.
\<close>

lemma latent_sampling_example:
  "map_sum id (map snd \<circ> fst)
     (latent_sampling example_randn_like id (example_module 0)
        (ddim example_randn_like (example_module 0)) example_batch 0) = Inr [2, 1, 0]"
  by (simp add: latent_sampling_def latent_sampling_run_def and_then_def Let_def
        example_randn_like_def example_batch_def reversed_range_def ddim_def index_def
        example_network_def eval_nat_numeral tadd_def tsub_def smul_def sdiv_def)

section \<open>Properties of note extraction\<close>

lemma rect_binarize: "rect n bins g \<Longrightarrow> rect n bins (binarize g thr)"
  by (simp add: rect_def binarize_def)

lemma at2_in_range:
  "rect n bins g \<Longrightarrow> i < n \<Longrightarrow> j < bins \<Longrightarrow> at2 g (int i) (int j) = Inr (g ! i ! j)"
  by (simp add: rect_def at2_def index_def)

lemma note_end_returns:
  "rect n bins onsets \<Longrightarrow> rect n bins frames \<Longrightarrow> pitch < bins \<Longrightarrow> offset < n \<Longrightarrow>
     \<exists>off. note_end onsets frames pitch offset = Inr off \<and> offset \<le> off \<and> off \<le> n"
proof (induction onsets frames pitch offset rule: note_end.induct)
  case (1 onsets frames pitch offset)
  have len: "length onsets = n" using "1.prems"(1) by (simp add: rect_def)
  have on: "at2 onsets (int offset) (int pitch) = Inr (onsets ! offset ! pitch)"
    using "1.prems" by (simp add: at2_in_range)
  have fr: "at2 frames (int offset) (int pitch) = Inr (frames ! offset ! pitch)"
    using "1.prems" by (simp add: at2_in_range)
  define active where "active \<longleftrightarrow> onsets ! offset ! pitch \<noteq> 0 \<or> frames ! offset ! pitch \<noteq> 0"
  have cond: "(if onsets ! offset ! pitch \<noteq> 0 then Inr True
               else (case at2 frames (int offset) (int pitch) of
                       Inl e \<Rightarrow> Inl e
                     | Inr fr \<Rightarrow> Inr (fr \<noteq> 0))) = (Inr active :: error + bool)"
    by (simp add: fr active_def)
  show ?case
  proof (cases active)
    case False
    have "note_end onsets frames pitch offset = Inr offset"
      by (subst note_end.simps) (simp only: on cond sum.case False if_False)
    then show ?thesis using "1.prems"(4) by simp
  next
    case True
    then have act: active .
    show ?thesis
    proof (cases "offset + 1 = length onsets")
      assume stop: "offset + 1 = length onsets"
      have "note_end onsets frames pitch offset
          = (if offset + 1 = length onsets then Inr (offset + 1)
             else note_end onsets frames pitch (offset + 1))"
        by (subst note_end.simps) (simp only: on cond sum.case act if_True)
      also have "\<dots> = Inr (offset + 1)" using stop by simp
      finally show ?thesis using stop len by simp
    next
      assume go: "offset + 1 \<noteq> length onsets"
      have "note_end onsets frames pitch offset
          = (if offset + 1 = length onsets then Inr (offset + 1)
             else note_end onsets frames pitch (offset + 1))"
        by (subst note_end.simps) (simp only: on cond sum.case act if_True)
      also have "\<dots> = note_end onsets frames pitch (offset + 1)"
        using go by simp
      finally have step:
        "note_end onsets frames pitch offset = note_end onsets frames pitch (offset + 1)" .
      have lt: "offset + 1 < n" using go len "1.prems"(4) by simp
      obtain off where off: "note_end onsets frames pitch (offset + 1) = Inr off"
          "offset + 1 \<le> off" "off \<le> n"
        using "1.IH" [OF on cond act go "1.prems"(1) "1.prems"(2) "1.prems"(3) lt] by auto
      show ?thesis using step off by simp
    qed
  qed
qed

lemma collect_notes_returns:
  "rect n bins onsets \<Longrightarrow> rect n bins frames \<Longrightarrow>
   \<forall>(f, p) \<in> set locs. f < n \<and> p < bins \<Longrightarrow>
   length pitches = length intervals \<Longrightarrow>
   \<forall>(on, off) \<in> set intervals. on < off \<and> off \<le> n \<Longrightarrow>
   \<exists>ps ivs. collect_notes onsets frames locs (pitches, intervals) = Inr (ps, ivs)
      \<and> length ps = length ivs
      \<and> (\<forall>(on, off) \<in> set ivs. on < off \<and> off \<le> n)"
proof (induction locs arbitrary: pitches intervals)
  case Nil
  then show ?case by simp
next
  case (Cons loc locs)
  obtain f p where loc: "loc = (f, p)" by (cases loc)
  have fp: "f < n" "p < bins" using Cons.prems(3) loc by simp_all
  have rest: "\<forall>(f, p) \<in> set locs. f < n \<and> p < bins" using Cons.prems(3) by simp
  obtain off where off: "note_end onsets frames p f = Inr off" "f \<le> off" "off \<le> n"
    using note_end_returns [OF Cons.prems(1) Cons.prems(2) fp(2) fp(1)] by auto
  show ?case
  proof (cases "off > f")
    case True
    have l: "length (pitches @ [p]) = length (intervals @ [(f, off)])"
      using Cons.prems(4) by simp
    have i: "\<forall>(on, off) \<in> set (intervals @ [(f, off)]). on < off \<and> off \<le> n"
      using Cons.prems(5) True off(3) by simp
    show ?thesis
      using Cons.IH [OF Cons.prems(1) Cons.prems(2) rest l i] by (simp add: loc off(1) True)
  next
    case False
    show ?thesis
      using Cons.IH [OF Cons.prems(1) Cons.prems(2) rest Cons.prems(4) Cons.prems(5)]
      by (simp add: loc off(1) False)
  qed
qed

lemma nonzero_in_range:
  "(f, p) \<in> set (nonzero g) \<Longrightarrow> f < length g \<and> p < length (g ! f) \<and> g ! f ! p"
  by (auto simp: nonzero_def in_set_enumerate_eq)

lemma length_onset_diff_of [simp]: "length (onset_diff_of g) = length g"
  by (cases g) (simp_all add: onset_diff_of_def)

lemma nth_onset_diff_of:
  assumes "i < length g"
  shows "onset_diff_of g ! i
     = map (\<lambda>d. d = 1) (if i = 0 then g ! 0 else map2 (-) (g ! i) (g ! (i - 1)))"
proof -
  let ?rows = "take 1 g @ map2 (map2 (-)) (drop 1 g) (butlast g)"
  have l1: "length (take 1 g) = 1" using assms by simp
  have len: "length ?rows = length g" using assms by simp
  have rows: "?rows ! i = (if i = 0 then g ! 0 else map2 (-) (g ! i) (g ! (i - 1)))"
  proof (cases "i = 0")
    case True
    then show ?thesis using assms by (simp add: nth_append)
  next
    case False
    then have k: "i - 1 < length g - 1" using assms by simp
    have a: "drop 1 g ! (i - 1) = g ! i" using False assms by simp
    have b: "butlast g ! (i - 1) = g ! (i - 1)" using k by (simp add: nth_butlast)
    have "?rows ! i = map2 (map2 (-)) (drop 1 g) (butlast g) ! (i - 1)"
      using False l1 by (simp add: nth_append)
    also have "\<dots> = map2 (-) (drop 1 g ! (i - 1)) (butlast g ! (i - 1))"
      using k by simp
    finally show ?thesis using False a b by simp
  qed
  have "onset_diff_of g ! i = map (\<lambda>d. d = 1) (?rows ! i)"
    unfolding onset_diff_of_def using assms len by (simp only: nth_map)
  then show ?thesis using rows by simp
qed

lemma row_onset_diff_of:
  assumes "rect n bins g" "row \<in> set (onset_diff_of g)"
  shows "length row = bins"
proof -
  have rows: "\<And>i. i < length g \<Longrightarrow> length (g ! i) = bins"
    using assms(1) by (simp add: rect_def)
  obtain i where i: "i < length g" "row = onset_diff_of g ! i"
    using assms(2) by (auto simp: in_set_conv_nth)
  show ?thesis
  proof (cases "i = 0")
    case True
    then show ?thesis using i rows [of 0] by (simp add: nth_onset_diff_of)
  next
    case False
    then have "i - 1 < length g" using i(1) by simp
    then show ?thesis using False i rows [of i] rows [of "i - 1"] by (simp add: nth_onset_diff_of)
  qed
qed

lemma rect_onset_diff_of: "rect n bins g \<Longrightarrow> rect n bins (onset_diff_of g)"
  using row_onset_diff_of [of n bins g] by (simp add: rect_def)

lemma apply_rule_in_range:
  assumes "rect n bins od" "rect n bins fr" "apply_rule rule od fr = Inr od'"
    "(f, p) \<in> set (nonzero od')"
  shows "f < n \<and> p < bins \<and> od ! f ! p"
proof -
  have fp: "f < length od'" "p < length (od' ! f)" "od' ! f ! p"
    using nonzero_in_range [OF assms(4)] by simp_all
  have lo: "length od = n" and lf: "length fr = n" using assms(1,2) by (simp_all add: rect_def)
  show ?thesis
  proof (cases "rule = ''rule2''")
    case True
    then have "od' = od" using assms(3) by (simp add: apply_rule_def)
    moreover have "length (od ! f) = bins" if "f < n"
      using assms(1) lo that by (simp add: rect_def)
    ultimately show ?thesis using fp lo by simp
  next
    case False
    then have od': "od' = map2 (map2 (\<and>)) od (map (map (\<lambda>f. f = 1)) fr)"
      using assms(3) by (simp add: apply_rule_def split: if_splits)
    have f: "f < n" using fp(1) od' lo lf by simp
    have r1: "length (od ! f) = bins" using assms(1) lo f by (simp add: rect_def)
    have r2: "length (fr ! f) = bins" using assms(2) lf f by (simp add: rect_def)
    have row: "od' ! f = map2 (\<and>) (od ! f) (map (\<lambda>f. f = 1) (fr ! f))"
      using f lo lf by (simp add: od')
    have p: "p < bins" using fp(2) row r1 r2 by simp
    have "od ! f ! p" using fp(3) row p r1 r2 by simp
    then show ?thesis using f p by simp
  qed
qed

lemma apply_rule_returns:
  "rule = ''rule1'' \<or> rule = ''rule2'' \<Longrightarrow> \<exists>od'. apply_rule rule od fr = Inr od'"
  by (auto simp: apply_rule_def)

lemma nonzero_all_false:
  assumes "\<forall>row \<in> set g. \<forall>v \<in> set row. \<not> v"
  shows "nonzero g = []"
proof -
  have "(f, p) \<notin> set (nonzero g)" for f p
  proof
    assume "(f, p) \<in> set (nonzero g)"
    then have "f < length g" "p < length (g ! f)" "g ! f ! p"
      using nonzero_in_range by blast+
    then show False using assms by (meson nth_mem)
  qed
  then show ?thesis by (cases "nonzero g") auto
qed

lemma binarize_quiet:
  assumes "rect n bins onsets" "\<forall>row \<in> set onsets. \<forall>v \<in> set row. v \<le> thr" "i < n" "p < bins"
  shows "binarize onsets thr ! i ! p = 0"
proof -
  have i: "i < length onsets" and p: "p < length (onsets ! i)"
    using assms(1,3,4) by (simp_all add: rect_def)
  have "onsets ! i ! p \<le> thr" using assms(2) i p by (meson nth_mem)
  then show ?thesis using i p by (simp add: binarize_def)
qed

lemma onset_diff_quiet:
  assumes "rect n bins onsets" "\<forall>row \<in> set onsets. \<forall>v \<in> set row. v \<le> thr" "f < n" "p < bins"
  shows "\<not> onset_diff_of (binarize onsets thr) ! f ! p"
proof -
  let ?O = "binarize onsets thr"
  have r: "rect n bins ?O" using assms(1) by (rule rect_binarize)
  have len: "length ?O = n" and rows: "\<And>i. i < n \<Longrightarrow> length (?O ! i) = bins"
    using r by (simp_all add: rect_def)
  have z: "\<And>i. i < n \<Longrightarrow> ?O ! i ! p = 0"
    using binarize_quiet [OF assms(1,2) _ assms(4)] by simp
  show ?thesis
  proof (cases "f = 0")
    case True
    then show ?thesis
      using assms(3,4) len rows [of 0] z [of 0] by (simp add: nth_onset_diff_of)
  next
    case False
    then have f1: "f - 1 < n" using assms(3) by simp
    show ?thesis
      using False assms(3,4) len rows [OF assms(3)] rows [OF f1] z [OF assms(3)] z [OF f1]
      by (simp add: nth_onset_diff_of)
  qed
qed

text \<open>
  C9. For onsets and frames grids of one shape [n, bins], every pair of thresholds and
  either rule, \<open>extract_notes_wo_velocity\<close> returns pitch and interval lists of equal
  length, every interval \<open>(onset, offset)\<close> has \<open>onset < offset \<le> n\<close>, and the lists
  are empty when both grids are entirely at or below their thresholds.
\<close>

theorem extract_notes_intervals:
  assumes "rect n bins onsets" and "rect n bins frames"
    and "rule = ''rule1'' \<or> rule = ''rule2''"
  shows "\<exists>pitches intervals.
           extract_notes_wo_velocity onsets frames onset_threshold frame_threshold rule
             = Inr (pitches, intervals)
           \<and> length pitches = length intervals
           \<and> (\<forall>(on, off) \<in> set intervals. on < off \<and> off \<le> n)
           \<and> ((\<forall>row \<in> set onsets. \<forall>v \<in> set row. v \<le> onset_threshold)
                \<and> (\<forall>row \<in> set frames. \<forall>v \<in> set row. v \<le> frame_threshold)
               \<longrightarrow> pitches = [] \<and> intervals = [])"
proof -
  let ?O = "binarize onsets onset_threshold" and ?F = "binarize frames frame_threshold"
  let ?od = "onset_diff_of ?O"
  have rO: "rect n bins ?O" and rF: "rect n bins ?F"
    using assms(1,2) by (simp_all add: rect_binarize)
  have rod: "rect n bins ?od" using rO by (rule rect_onset_diff_of)
  obtain od' where od': "apply_rule rule ?od ?F = Inr od'"
    using apply_rule_returns [OF assms(3)] by blast
  have locs: "\<forall>(f, p) \<in> set (nonzero od'). f < n \<and> p < bins"
    using apply_rule_in_range [OF rod rF od'] by auto
  obtain ps ivs where res: "collect_notes ?O ?F (nonzero od') ([], []) = Inr (ps, ivs)"
      "length ps = length ivs" "\<forall>(on, off) \<in> set ivs. on < off \<and> off \<le> n"
    using collect_notes_returns [OF rO rF locs, of "[]" "[]"] by auto
  have run: "extract_notes_wo_velocity onsets frames onset_threshold frame_threshold rule
      = Inr (ps, ivs)"
    by (simp add: extract_notes_wo_velocity_def Let_def od' res(1))
  have quiet: "ps = [] \<and> ivs = []"
    if q: "\<forall>row \<in> set onsets. \<forall>v \<in> set row. v \<le> onset_threshold"
  proof -
    have "(f, p) \<notin> set (nonzero od')" for f p
    proof
      assume m: "(f, p) \<in> set (nonzero od')"
      have "f < n \<and> p < bins \<and> ?od ! f ! p" using apply_rule_in_range [OF rod rF od' m] .
      then show False using onset_diff_quiet [OF assms(1) q] by blast
    qed
    then have "nonzero od' = []" by (cases "nonzero od'") auto
    then show ?thesis using res(1) by simp
  qed
  show ?thesis
    using run res(2,3) quiet by (intro exI [of _ ps] exI [of _ ivs]) blast
qed

text \<open>The example grid, evaluated step by step.\<close>

lemma ex_bin: "binarize example_grid 0.5 = [[1, 0], [1, 0], [0, 1], [0, 1]]"
  by (simp add: binarize_def example_grid_def)

lemma ex_od: "onset_diff_of [[1, 0], [1, 0], [0, 1], [0, 1]]
   = [[True, False], [False, False], [False, True], [False, False]]"
  by (simp add: onset_diff_of_def)

lemma ex_rule: "apply_rule ''rule1''
    [[True, False], [False, False], [False, True], [False, False]]
    [[1, 0], [1, 0], [0, 1], [0, 1]]
   = Inr [[True, False], [False, False], [False, True], [False, False]]"
  by (simp add: apply_rule_def)

lemma ex_nz: "nonzero [[True, False], [False, False], [False, True], [False, False]]
   = [(0, 0), (2, 1)]"
  by code_simp

lemma ex_collect: "collect_notes [[1, 0], [1, 0], [0, 1], [0, 1]] [[1, 0], [1, 0], [0, 1], [0, 1]]
    [(0, 0), (2, 1)] ([], []) = Inr ([0, 1], [(0, 2), (2, 4)])"
  by code_simp


theorem extract_notes_intervals_witness:
  "rect 4 2 example_grid
   \<and> extract_notes_wo_velocity example_grid example_grid 0.5 0.5 ''rule1''
       = Inr ([0, 1], [(0, 2), (2, 4)])
   \<and> (\<exists>pitches intervals.
        extract_notes_wo_velocity example_grid example_grid 0.5 0.5 ''rule1''
          = Inr (pitches, intervals)
        \<and> length pitches = length intervals
        \<and> (\<forall>(on, off) \<in> set intervals. on < off \<and> off \<le> 4))
   \<and> rect 2 2 example_quiet_grid
   \<and> extract_notes_wo_velocity example_quiet_grid example_quiet_grid 0.5 0.5 ''rule2''
       = Inr ([], [])"
proof -
  have r: "rect 4 2 example_grid" by (simp add: rect_def example_grid_def)
  have rq: "rect 2 2 example_quiet_grid" by (simp add: rect_def example_quiet_grid_def)
  have ru: "''rule1'' = ''rule1'' \<or> ''rule1'' = ''rule2''" by simp
  have ru2: "''rule2'' = ''rule1'' \<or> ''rule2'' = ''rule2''" by simp
  have ev: "extract_notes_wo_velocity example_grid example_grid 0.5 0.5 ''rule1''
       = Inr ([0, 1], [(0, 2), (2, 4)])"
    by (simp only: extract_notes_wo_velocity_def Let_def ex_bin ex_od ex_rule ex_nz ex_collect
          sum.case)
  obtain pitches intervals where g:
      "extract_notes_wo_velocity example_grid example_grid 0.5 0.5 ''rule1''
          = Inr (pitches, intervals)
        \<and> length pitches = length intervals
        \<and> (\<forall>(on, off) \<in> set intervals. on < off \<and> off \<le> 4)
        \<and> ((\<forall>row \<in> set example_grid. \<forall>v \<in> set row. v \<le> 0.5)
                \<and> (\<forall>row \<in> set example_grid. \<forall>v \<in> set row. v \<le> 0.5)
               \<longrightarrow> pitches = [] \<and> intervals = [])"
    using extract_notes_intervals [OF r r ru, of "0.5" "0.5"] by (elim exE)
  have ge: "\<exists>pitches intervals.
        extract_notes_wo_velocity example_grid example_grid 0.5 0.5 ''rule1''
          = Inr (pitches, intervals)
        \<and> length pitches = length intervals
        \<and> (\<forall>(on, off) \<in> set intervals. on < off \<and> off \<le> 4)"
    using g [THEN conjunct1] g [THEN conjunct2, THEN conjunct1]
      g [THEN conjunct2, THEN conjunct2, THEN conjunct1]
    by (intro exI [of _ pitches] exI [of _ intervals] conjI)
  have q: "(\<forall>row \<in> set example_quiet_grid. \<forall>v \<in> set row. v \<le> 0.5)
           \<and> (\<forall>row \<in> set example_quiet_grid. \<forall>v \<in> set row. v \<le> 0.5)"
    by (simp add: example_quiet_grid_def)
  obtain ps ivs where h:
      "extract_notes_wo_velocity example_quiet_grid example_quiet_grid 0.5 0.5 ''rule2''
          = Inr (ps, ivs)
        \<and> length ps = length ivs
        \<and> (\<forall>(on, off) \<in> set ivs. on < off \<and> off \<le> 2)
        \<and> ((\<forall>row \<in> set example_quiet_grid. \<forall>v \<in> set row. v \<le> 0.5)
                \<and> (\<forall>row \<in> set example_quiet_grid. \<forall>v \<in> set row. v \<le> 0.5)
               \<longrightarrow> ps = [] \<and> ivs = [])"
    using extract_notes_intervals [OF rq rq ru2, of "0.5" "0.5"] by (elim exE)
  have e: "ps = [] \<and> ivs = []"
    using h [THEN conjunct2, THEN conjunct2, THEN conjunct2, THEN mp, OF q] .
  have qe: "extract_notes_wo_velocity example_quiet_grid example_quiet_grid 0.5 0.5 ''rule2''
       = Inr ([], [])"
    using h [THEN conjunct1] e by simp
  show ?thesis using r ev ge rq qe by (intro conjI)
qed
end
